theory Spec2Isabelle
  imports Complex_Main "HOL-Library.Word" "HOL-Library.Char_ord"
begin

section \<open>The nacos registry adapter (contrib/registry/nacos/registry.go)\<close>

text \<open>
  The adapter translates a framework service instance into calls on a naming client and
  back. Go strings are byte sequences: \<^typ>\<open>string\<close>. Go's \<open>int\<close> is taken to be 64 bits
  wide (the value of \<open>strconv.IntSize\<close> on the usual platforms); \<open>uint64\<close> is
  \<^typ>\<open>64 word\<close>. A \<open>float64\<close> weight is only stored and handed on, never computed with,
  and is carried as a \<^typ>\<open>real\<close>.
\<close>

subsection \<open>Errors\<close>

text \<open>
  The reasons inside a \<open>*url.Error\<close>: \<open>errors.New\<close> texts, \<open>url.EscapeError\<close>,
  \<open>url.InvalidHostError\<close> and the \<open>fmt.Errorf("invalid port %q after host", _)\<close> of
  \<open>parseHost\<close> (kept with its argument).
\<close>

datatype url_err =
    errors_New string
  | EscapeError string
  | InvalidHostError string
  | invalid_port_after_host string

datatype num_err = ErrSyntax | ErrRange

text \<open>
  The errors the adapter can return. \<open>url_Error op url err\<close> is \<open>&url.Error{Op, URL, Err}\<close>,
  \<open>AddrError err addr\<close> is \<open>&net.AddrError{Err, Addr}\<close>, \<open>NumError func num err\<close> is
  \<open>&strconv.NumError{Func, Num, Err}\<close>. An error of the naming client is known to the
  adapter by its \<open>Error()\<close> text only: \<open>ClientError text\<close>. \<open>Errorf text\<close> is the value of
  \<open>fmt.Errorf\<close> with the text already formatted.
\<close>

datatype error =
    ErrServiceInstanceNameEmpty
  | url_Error string string url_err
  | AddrError string string
  | NumError string string num_err
  | ClientError string
  | Errorf string

subsection \<open>Go's standard library, as far as the adapter calls it\<close>

text \<open>
  \<open>url.Parse\<close>, \<open>net.SplitHostPort\<close>, \<open>strconv.Atoi\<close> and the verbs of
  \<open>fmt.Sprintf\<close> are not code of the adapter. They are written out here after the Go
  sources (net/url as of Go 1.21), restricted to the two fields of \<open>url.URL\<close> the adapter
  reads, so that the adapter can be run on concrete endpoints.
\<close>

subsubsection \<open>Bytes and the strings package\<close>

definition is_lower :: "char \<Rightarrow> bool" where
  "is_lower c = (CHR ''a'' \<le> c \<and> c \<le> CHR ''z'')"

definition is_upper :: "char \<Rightarrow> bool" where
  "is_upper c = (CHR ''A'' \<le> c \<and> c \<le> CHR ''Z'')"

definition is_digit :: "char \<Rightarrow> bool" where
  "is_digit c = (CHR ''0'' \<le> c \<and> c \<le> CHR ''9'')"

definition digit_val :: "char \<Rightarrow> int" where
  \<comment> \<open>\<open>c - '0'\<close> for a digit\<close>
  "digit_val c = of_char c - of_char CHR ''0''"

definition ToLower :: "string \<Rightarrow> string" where
  \<comment> \<open>\<open>strings.ToLower\<close> on ASCII bytes; a scheme holds no other byte\<close>
  "ToLower s = map (\<lambda>c. if is_upper c then char_of (of_char c + (32::int)) else c) s"

definition HasPrefix :: "string \<Rightarrow> string \<Rightarrow> bool" where
  "HasPrefix s p = (take (length p) s = p)"

definition IndexByte :: "string \<Rightarrow> char \<Rightarrow> nat option" where
  \<comment> \<open>the index of the first \<open>c\<close>; \<open>None\<close> is Go's \<open>-1\<close>\<close>
  "IndexByte s c =
     (if c \<in> set s then Some (length (takeWhile (\<lambda>x. x \<noteq> c) s)) else None)"

definition LastIndexByte :: "string \<Rightarrow> char \<Rightarrow> nat option" where
  \<comment> \<open>the index of the last \<open>c\<close>\<close>
  "LastIndexByte s c =
     (if c \<in> set s then Some (length s - 1 - length (takeWhile (\<lambda>x. x \<noteq> c) (rev s)))
      else None)"

fun Index :: "string \<Rightarrow> string \<Rightarrow> nat option" where
  \<comment> \<open>\<open>strings.Index\<close>: the index of the first occurrence of \<open>sep\<close>\<close>
  "Index [] sep = (if sep = [] then Some 0 else None)"
| "Index (c # s) sep =
     (if HasPrefix (c # s) sep then Some 0 else map_option Suc (Index s sep))"

definition Cut :: "string \<Rightarrow> char \<Rightarrow> string \<times> string" where
  \<comment> \<open>\<open>strings.Cut\<close> at a one-byte separator: the text before and after its first
      occurrence; all of \<open>s\<close> and the empty string when there is none\<close>
  "Cut s c = (takeWhile (\<lambda>x. x \<noteq> c) s, drop 1 (dropWhile (\<lambda>x. x \<noteq> c) s))"

subsubsection \<open>strconv.Atoi and the verb \<open>%d\<close>\<close>

fun ParseUint_loop :: "int \<Rightarrow> string \<Rightarrow> num_err + int" where
  \<comment> \<open>the digit loop of \<open>strconv.ParseUint(s, 10, 64)\<close>: a byte that is no digit is a
      syntax error, a value beyond \<open>1<<64 - 1\<close> a range error, whichever comes first\<close>
  "ParseUint_loop n [] = Inr n"
| "ParseUint_loop n (c # cs) =
     (if \<not> is_digit c then Inl ErrSyntax
      else if 2 ^ 64 \<le> n * 10 + digit_val c then Inl ErrRange
      else ParseUint_loop (n * 10 + digit_val c) cs)"

definition strconv_Atoi :: "string \<Rightarrow> error + int" where
  \<comment> \<open>an optional sign and decimal digits, within \<open>int64\<close>\<close>
  "strconv_Atoi s =
     (let neg = (take 1 s = ''-'');
          body = (if take 1 s = ''+'' \<or> take 1 s = ''-'' then drop 1 s else s)
      in if body = [] then Inl (NumError ''Atoi'' s ErrSyntax)
         else case ParseUint_loop 0 body of
           Inl e \<Rightarrow> Inl (NumError ''Atoi'' s e)
         | Inr un \<Rightarrow>
             if \<not> neg \<and> 2 ^ 63 \<le> un then Inl (NumError ''Atoi'' s ErrRange)
             else if neg \<and> 2 ^ 63 < un then Inl (NumError ''Atoi'' s ErrRange)
             else Inr (if neg then - un else un))"

function FormatUint :: "int \<Rightarrow> string" where
  \<comment> \<open>the decimal text of an unsigned integer, as \<open>%d\<close> prints it\<close>
  "FormatUint n =
     (if n < 10 then [char_of (of_char CHR ''0'' + n)]
      else FormatUint (n div 10) @ [char_of (of_char CHR ''0'' + n mod 10)])"
  by pat_completeness auto
termination
  by (relation "measure nat") auto

declare FormatUint.simps [simp del]

subsubsection \<open>net.SplitHostPort\<close>

definition net_SplitHostPort :: "string \<Rightarrow> error + string \<times> string" where
  "net_SplitHostPort hostport =
     (case LastIndexByte hostport CHR '':'' of
        None \<Rightarrow> Inl (AddrError ''missing port in address'' hostport)
      | Some i \<Rightarrow>
          if take 1 hostport = ''['' then
            (case IndexByte hostport CHR '']'' of
               None \<Rightarrow> Inl (AddrError ''missing ']' in address'' hostport)
             | Some end \<Rightarrow>
                 if end + 1 = length hostport
                 then Inl (AddrError ''missing port in address'' hostport)
                 else if end + 1 = i then
                   (if CHR ''['' \<in> set (drop 1 hostport)
                    then Inl (AddrError ''unexpected '[' in address'' hostport)
                    else if CHR '']'' \<in> set (drop (end + 1) hostport)
                    then Inl (AddrError ''unexpected ']' in address'' hostport)
                    else Inr (take (end - 1) (drop 1 hostport), drop (i + 1) hostport))
                 else if take 1 (drop (end + 1) hostport) = '':''
                 then Inl (AddrError ''too many colons in address'' hostport)
                 else Inl (AddrError ''missing port in address'' hostport))
          else if CHR '':'' \<in> set (take i hostport)
          then Inl (AddrError ''too many colons in address'' hostport)
          else if CHR ''['' \<in> set hostport
          then Inl (AddrError ''unexpected '[' in address'' hostport)
          else if CHR '']'' \<in> set hostport
          then Inl (AddrError ''unexpected ']' in address'' hostport)
          else Inr (take i hostport, drop (i + 1) hostport))"

subsubsection \<open>net/url: Parse\<close>

record URL =
  Scheme :: string
  Host :: string

datatype encoding = encodePath | encodeHost | encodeZone | encodeUserPassword | encodeFragment

definition ishex :: "char \<Rightarrow> bool" where
  "ishex c = (is_digit c \<or> (CHR ''a'' \<le> c \<and> c \<le> CHR ''f'') \<or> (CHR ''A'' \<le> c \<and> c \<le> CHR ''F''))"

definition unhex :: "char \<Rightarrow> int" where
  "unhex c =
     (if is_digit c then of_char c - of_char CHR ''0''
      else if CHR ''a'' \<le> c \<and> c \<le> CHR ''f'' then of_char c - of_char CHR ''a'' + 10
      else if CHR ''A'' \<le> c \<and> c \<le> CHR ''F'' then of_char c - of_char CHR ''A'' + 10
      else 0)"

definition shouldEscape_host :: "char \<Rightarrow> bool" where
  \<comment> \<open>\<open>shouldEscape(c, mode)\<close> for the modes \<open>encodeHost\<close> and \<open>encodeZone\<close>, which share
      one branch: letters, digits, the sub-delimiters, \<open>: [ ] < > "\<close> and the marks
      \<open>- _ . ~\<close> stand for themselves in a host\<close>
  "shouldEscape_host c =
     (\<not> (is_lower c \<or> is_upper c \<or> is_digit c
         \<or> c \<in> set [CHR ''!'', CHR ''$'', CHR ''&'', CHR 0x27, CHR ''('', CHR '')'', CHR ''*'',
                     CHR ''+'', CHR '','', CHR '';'', CHR ''='', CHR '':'', CHR ''['', CHR '']'',
                     CHR ''<'', CHR ''>'', CHR 0x22]
         \<or> c \<in> set [CHR ''-'', CHR ''_'', CHR ''.'', CHR ''~'']))"

fun unescape :: "encoding \<Rightarrow> string \<Rightarrow> url_err + string" where
  \<comment> \<open>\<open>unescape(s, mode)\<close> for the modes above (none of them turns \<open>+\<close> into a space):
      the first malformed or forbidden byte from the left is the error\<close>
  "unescape mode [] = Inr []"
| "unescape mode (c # s) =
     (if c = CHR ''%'' then
        (case s of
           a # b # rest \<Rightarrow>
             if \<not> ishex a \<or> \<not> ishex b then Inl (EscapeError (take 3 (c # s)))
             else if mode = encodeHost \<and> unhex a < 8 \<and> [a, b] \<noteq> ''25''
             then Inl (EscapeError [c, a, b])
             else if mode = encodeZone \<and> [a, b] \<noteq> ''25''
                     \<and> char_of (unhex a * 16 + unhex b) \<noteq> CHR '' ''
                     \<and> shouldEscape_host (char_of (unhex a * 16 + unhex b))
             then Inl (EscapeError [c, a, b])
             else (case unescape mode rest of
                     Inl err \<Rightarrow> Inl err
                   | Inr t \<Rightarrow> Inr (char_of (unhex a * 16 + unhex b) # t))
         | _ \<Rightarrow> Inl (EscapeError (c # s)))
      else if (mode = encodeHost \<or> mode = encodeZone) \<and> c < CHR 0x80 \<and> shouldEscape_host c
      then Inl (InvalidHostError [c])
      else (case unescape mode s of Inl err \<Rightarrow> Inl err | Inr t \<Rightarrow> Inr (c # t)))"

definition stringContainsCTLByte :: "string \<Rightarrow> bool" where
  "stringContainsCTLByte s = list_ex (\<lambda>b. b < CHR 0x20 \<or> b = CHR 0x7F) s"

fun getScheme_from :: "string \<Rightarrow> string \<Rightarrow> string \<Rightarrow> url_err + string \<times> string" where
  \<comment> \<open>the loop of \<open>getScheme(rawURL)\<close> at index \<open>i\<close>: \<open>seen\<close> is \<open>rawURL[:i]\<close>, the third
      argument \<open>rawURL[i:]\<close>\<close>
  "getScheme_from rawURL seen [] = Inr ([], rawURL)"
| "getScheme_from rawURL seen (c # cs) =
     (if is_lower c \<or> is_upper c then getScheme_from rawURL (seen @ [c]) cs
      else if is_digit c \<or> c = CHR ''+'' \<or> c = CHR ''-'' \<or> c = CHR ''.'' then
        (if seen = [] then Inr ([], rawURL) else getScheme_from rawURL (seen @ [c]) cs)
      else if c = CHR '':'' then
        (if seen = [] then Inl (errors_New ''missing protocol scheme'') else Inr (seen, cs))
      else Inr ([], rawURL))"

definition getScheme :: "string \<Rightarrow> url_err + string \<times> string" where
  "getScheme rawURL = getScheme_from rawURL [] rawURL"

definition validOptionalPort :: "string \<Rightarrow> bool" where
  "validOptionalPort port =
     (case port of [] \<Rightarrow> True | c # ds \<Rightarrow> c = CHR '':'' \<and> list_all is_digit ds)"

definition parseHost :: "string \<Rightarrow> url_err + string" where
  "parseHost host =
     (if HasPrefix host ''['' then
        (case LastIndexByte host CHR '']'' of
           None \<Rightarrow> Inl (errors_New ''missing ']' in host'')
         | Some i \<Rightarrow>
             if \<not> validOptionalPort (drop (i + 1) host)
             then Inl (invalid_port_after_host (drop (i + 1) host))
             else (case Index (take i host) ''%25'' of
                     Some zone \<Rightarrow>
                       (case unescape encodeHost (take zone host) of Inl err \<Rightarrow> Inl err
                        | Inr host1 \<Rightarrow>
                       (case unescape encodeZone (drop zone (take i host)) of Inl err \<Rightarrow> Inl err
                        | Inr host2 \<Rightarrow>
                       (case unescape encodeHost (drop i host) of Inl err \<Rightarrow> Inl err
                        | Inr host3 \<Rightarrow> Inr (host1 @ host2 @ host3))))
                   | None \<Rightarrow> unescape encodeHost host))
      else
        (case LastIndexByte host CHR '':'' of
           Some i \<Rightarrow>
             if \<not> validOptionalPort (drop i host)
             then Inl (invalid_port_after_host (drop i host))
             else unescape encodeHost host
         | None \<Rightarrow> unescape encodeHost host))"

definition validUserinfo :: "string \<Rightarrow> bool" where
  "validUserinfo s =
     list_all (\<lambda>r. is_upper r \<or> is_lower r \<or> is_digit r
        \<or> r \<in> set [CHR ''-'', CHR ''.'', CHR ''_'', CHR '':'', CHR ''~'', CHR ''!'', CHR ''$'',
                    CHR ''&'', CHR 0x27, CHR ''('', CHR '')'', CHR ''*'', CHR ''+'', CHR '','',
                    CHR '';'', CHR ''='', CHR ''%'', CHR ''@'']) s"

definition parseAuthority :: "string \<Rightarrow> url_err + string" where
  \<comment> \<open>the host of \<open>parseAuthority(authority)\<close>; the user information is checked and dropped\<close>
  "parseAuthority authority =
     (case LastIndexByte authority CHR ''@'' of
        None \<Rightarrow> parseHost authority
      | Some i \<Rightarrow>
          (case parseHost (drop (i + 1) authority) of Inl err \<Rightarrow> Inl err
           | Inr host \<Rightarrow>
               let userinfo = take i authority in
               if \<not> validUserinfo userinfo then Inl (errors_New ''net/url: invalid userinfo'')
               else if CHR '':'' \<notin> set userinfo then
                 (case unescape encodeUserPassword userinfo of Inl err \<Rightarrow> Inl err
                  | Inr _ \<Rightarrow> Inr host)
               else
                 (case unescape encodeUserPassword (fst (Cut userinfo CHR '':'')) of
                    Inl err \<Rightarrow> Inl err
                  | Inr _ \<Rightarrow>
                 (case unescape encodeUserPassword (snd (Cut userinfo CHR '':'')) of
                    Inl err \<Rightarrow> Inl err
                  | Inr _ \<Rightarrow> Inr host))))"

definition parse :: "string \<Rightarrow> url_err + URL" where
  \<comment> \<open>\<open>parse(rawURL, false)\<close>. Both ways of taking the query off leave the text before
      the first \<open>?\<close> as \<open>rest\<close>. \<open>setPath\<close> fails when the path does not unescape.\<close>
  "parse rawURL =
     (if stringContainsCTLByte rawURL
      then Inl (errors_New ''net/url: invalid control character in URL'')
      else if rawURL = ''*'' then Inr \<lparr>Scheme = [], Host = []\<rparr>
      else case getScheme rawURL of Inl err \<Rightarrow> Inl err
      | Inr (scheme0, rest0) \<Rightarrow>
          let scheme = ToLower scheme0;
              rest = fst (Cut rest0 CHR ''?'')
          in if \<not> HasPrefix rest ''/'' \<and> scheme \<noteq> [] then Inr \<lparr>Scheme = scheme, Host = []\<rparr>
             else if \<not> HasPrefix rest ''/'' \<and> CHR '':'' \<in> set (fst (Cut rest CHR ''/''))
             then Inl (errors_New ''first path segment in URL cannot contain colon'')
             else if (scheme \<noteq> [] \<or> \<not> HasPrefix rest ''///'') \<and> HasPrefix rest ''//'' then
               (let authority = takeWhile (\<lambda>x. x \<noteq> CHR ''/'') (drop 2 rest);
                    path = dropWhile (\<lambda>x. x \<noteq> CHR ''/'') (drop 2 rest)
                in case parseAuthority authority of Inl err \<Rightarrow> Inl err
                   | Inr host \<Rightarrow>
                       (case unescape encodePath path of Inl err \<Rightarrow> Inl err
                        | Inr _ \<Rightarrow> Inr \<lparr>Scheme = scheme, Host = host\<rparr>))
             else (case unescape encodePath rest of Inl err \<Rightarrow> Inl err
                   | Inr _ \<Rightarrow> Inr \<lparr>Scheme = scheme, Host = []\<rparr>))"

definition url_Parse :: "string \<Rightarrow> error + URL" where
  \<comment> \<open>\<open>url.Parse\<close>: the fragment is cut off first and must unescape\<close>
  "url_Parse rawURL =
     (let u = fst (Cut rawURL CHR ''#''); frag = snd (Cut rawURL CHR ''#'')
      in case parse u of Inl err \<Rightarrow> Inl (url_Error ''parse'' u err)
         | Inr url \<Rightarrow>
             if frag = [] then Inr url
             else (case unescape encodeFragment frag of
                     Inl err \<Rightarrow> Inl (url_Error ''parse'' rawURL err)
                   | Inr _ \<Rightarrow> Inr url))"

subsection \<open>The data of the framework and of the naming client\<close>

text \<open>
  \<open>registry.ServiceInstance\<close> of the framework, and the parameter and result structs of the
  naming client's SDK (\<open>vo.RegisterInstanceParam\<close>, \<open>vo.DeregisterInstanceParam\<close>,
  \<open>vo.SelectInstancesParam\<close>, \<open>model.Instance\<close>). A Go map is a partial function.
\<close>

record ServiceInstance =
  ID :: string
  Name :: string
  Version :: string
  Metadata :: "string \<rightharpoonup> string"
  Endpoints :: "string list"

record RegisterInstanceParam =
  Ip :: string
  Port :: "64 word"
  Weight :: real
  Enable :: bool
  Healthy :: bool
  Metadata :: "string \<rightharpoonup> string"
  ClusterName :: string
  ServiceName :: string
  GroupName :: string
  Ephemeral :: bool

record DeregisterInstanceParam =
  Ip :: string
  Port :: "64 word"
  Cluster :: string
  ServiceName :: string
  GroupName :: string
  Ephemeral :: bool

record SelectInstancesParam =
  Clusters :: "string list"
  ServiceName :: string
  GroupName :: string
  HealthyOnly :: bool

record Instance =
  InstanceId :: string
  Ip :: string
  Port :: "64 word"
  Weight :: real
  Healthy :: bool
  Enable :: bool
  Ephemeral :: bool
  ClusterName :: string
  ServiceName :: string
  Metadata :: "string \<rightharpoonup> string"

text \<open>
  \<open>naming_client.INamingClient\<close>, the three operations the adapter calls. The client is
  stateful and outside the adapter: each operation takes the client's state \<open>'c\<close> and
  returns the new one. \<open>Inl text\<close> is a non-nil error with that \<open>Error()\<close> text.
\<close>

record 'c INamingClient =
  RegisterInstance :: "RegisterInstanceParam \<Rightarrow> 'c \<Rightarrow> (string + bool) \<times> 'c"
  DeregisterInstance :: "DeregisterInstanceParam \<Rightarrow> 'c \<Rightarrow> (string + bool) \<times> 'c"
  SelectInstances :: "SelectInstancesParam \<Rightarrow> 'c \<Rightarrow> (string + Instance list) \<times> 'c"

subsection \<open>Options and construction\<close>

record options =
  prefix :: string
  weight :: real
  cluster :: string
  group :: string
  kind :: string

type_synonym Option = "options \<Rightarrow> options"

definition WithPrefix :: "string \<Rightarrow> Option" where
  "WithPrefix p = (\<lambda>op. op\<lparr>prefix := p\<rparr>)"

definition WithWeight :: "real \<Rightarrow> Option" where
  "WithWeight w = (\<lambda>op. op\<lparr>weight := w\<rparr>)"

definition WithCluster :: "string \<Rightarrow> Option" where
  "WithCluster c = (\<lambda>op. op\<lparr>cluster := c\<rparr>)"

definition WithGroup :: "string \<Rightarrow> Option" where
  "WithGroup g = (\<lambda>op. op\<lparr>group := g\<rparr>)"

definition WithDefaultKind :: "string \<Rightarrow> Option" where
  "WithDefaultKind k = (\<lambda>op. op\<lparr>kind := k\<rparr>)"

definition DEFAULT_GROUP :: string where
  \<comment> \<open>Modelled from the spec: \<open>constant.DEFAULT_GROUP\<close> of the SDK, the naming service's
      default group; its declaration is not part of the adapter.\<close>
  "DEFAULT_GROUP = ''DEFAULT_GROUP''"

record 'c Registry =
  opts :: options
  cli :: "'c INamingClient"

definition New :: "'c INamingClient \<Rightarrow> Option list \<Rightarrow> 'c Registry" where
  "New c os =
     \<lparr>opts = fold (\<lambda>option op. option op) os
        \<lparr>prefix = ''/microservices'', weight = 100, cluster = ''DEFAULT'',
         group = DEFAULT_GROUP, kind = ''grpc''\<rparr>,
      cli = c\<rparr>"

subsection \<open>Register, Deregister, GetService\<close>

fun Register_loop ::
  "'c Registry \<Rightarrow> ServiceInstance \<Rightarrow> string list \<Rightarrow> 'c \<Rightarrow> error option \<times> 'c" where
  \<comment> \<open>the loop over \<open>si.Endpoints\<close>; \<open>None\<close> is the nil error\<close>
  "Register_loop r si [] s = (None, s)"
| "Register_loop r si (endpoint # rest) s =
     (case url_Parse endpoint of Inl err \<Rightarrow> (Some err, s)
      | Inr u \<Rightarrow>
     (case net_SplitHostPort (Host u) of Inl err \<Rightarrow> (Some err, s)
      | Inr (host, port) \<Rightarrow>
     (case strconv_Atoi port of Inl err \<Rightarrow> (Some err, s)
      | Inr p \<Rightarrow>
          let meta = [''kind'' \<mapsto> Scheme u, ''version'' \<mapsto> Version si]
                       ++ ServiceInstance.Metadata si
          in case RegisterInstance (cli r)
                    \<lparr>RegisterInstanceParam.Ip = host,
                     RegisterInstanceParam.Port = word_of_int p,
                     RegisterInstanceParam.Weight = weight (opts r),
                     RegisterInstanceParam.Enable = True,
                     RegisterInstanceParam.Healthy = True,
                     RegisterInstanceParam.Metadata = meta,
                     RegisterInstanceParam.ClusterName = cluster (opts r),
                     RegisterInstanceParam.ServiceName = Name si @ ''.'' @ Scheme u,
                     RegisterInstanceParam.GroupName = group (opts r),
                     RegisterInstanceParam.Ephemeral = True\<rparr> s of
               (Inl err, s') \<Rightarrow>
                 (Some (Errorf (''RegisterInstance err: '' @ err @ '', '' @ endpoint)), s')
             | (Inr _, s') \<Rightarrow> Register_loop r si rest s')))"

definition Register :: "'c Registry \<Rightarrow> ServiceInstance \<Rightarrow> 'c \<Rightarrow> error option \<times> 'c" where
  "Register r si s =
     (if Name si = [] then (Some ErrServiceInstanceNameEmpty, s)
      else Register_loop r si (Endpoints si) s)"

fun Deregister_loop ::
  "'c Registry \<Rightarrow> ServiceInstance \<Rightarrow> string list \<Rightarrow> 'c \<Rightarrow> error option \<times> 'c" where
  "Deregister_loop r service [] s = (None, s)"
| "Deregister_loop r service (endpoint # rest) s =
     (case url_Parse endpoint of Inl err \<Rightarrow> (Some err, s)
      | Inr u \<Rightarrow>
     (case net_SplitHostPort (Host u) of Inl err \<Rightarrow> (Some err, s)
      | Inr (host, port) \<Rightarrow>
     (case strconv_Atoi port of Inl err \<Rightarrow> (Some err, s)
      | Inr p \<Rightarrow>
          (case DeregisterInstance (cli r)
                  \<lparr>DeregisterInstanceParam.Ip = host,
                   DeregisterInstanceParam.Port = word_of_int p,
                   DeregisterInstanceParam.Cluster = cluster (opts r),
                   DeregisterInstanceParam.ServiceName = Name service @ ''.'' @ Scheme u,
                   DeregisterInstanceParam.GroupName = group (opts r),
                   DeregisterInstanceParam.Ephemeral = True\<rparr> s of
             (Inl err, s') \<Rightarrow> (Some (ClientError err), s')
           | (Inr _, s') \<Rightarrow> Deregister_loop r service rest s'))))"

definition Deregister :: "'c Registry \<Rightarrow> ServiceInstance \<Rightarrow> 'c \<Rightarrow> error option \<times> 'c" where
  "Deregister r service s = Deregister_loop r service (Endpoints service) s"

definition GetService ::
  "'c Registry \<Rightarrow> string \<Rightarrow> 'c \<Rightarrow> (error + ServiceInstance list) \<times> 'c" where
  \<comment> \<open>\<open>Clusters\<close> is left unset: the nil slice. \<open>%d\<close> prints the \<open>uint64\<close> port.\<close>
  "GetService r serviceName s =
     (case SelectInstances (cli r)
             \<lparr>Clusters = [], ServiceName = serviceName, GroupName = group (opts r),
              HealthyOnly = True\<rparr> s of
        (Inl err, s') \<Rightarrow> (Inl (ClientError err), s')
      | (Inr res, s') \<Rightarrow>
          (Inr (map (\<lambda>inst.
                  let kind = (case Instance.Metadata inst ''kind'' of
                                Some k \<Rightarrow> k | None \<Rightarrow> kind (opts r))
                  in \<lparr>ID = InstanceId inst,
                      Name = Instance.ServiceName inst,
                      Version = (case Instance.Metadata inst ''version'' of
                                   Some v \<Rightarrow> v | None \<Rightarrow> []),
                      Metadata = Instance.Metadata inst,
                      Endpoints = [kind @ ''://'' @ Instance.Ip inst @ '':''
                                     @ FormatUint (uint (Instance.Port inst))]\<rparr>) res),
           s'))"

subsection \<open>Observing the calls on the client\<close>

datatype call =
    RegisterInstance_call RegisterInstanceParam
  | DeregisterInstance_call DeregisterInstanceParam
  | SelectInstances_call SelectInstancesParam

definition recording :: "'c INamingClient \<Rightarrow> ('c \<times> call list) INamingClient" where
  \<comment> \<open>any client, with a log of the calls made on it kept beside its state: each
      operation appends its call and answers as the client does\<close>
  "recording c =
     \<lparr>RegisterInstance = (\<lambda>p (s, calls).
        case RegisterInstance c p s of
          (res, s') \<Rightarrow> (res, (s', calls @ [RegisterInstance_call p]))),
      DeregisterInstance = (\<lambda>p (s, calls).
        case DeregisterInstance c p s of
          (res, s') \<Rightarrow> (res, (s', calls @ [DeregisterInstance_call p]))),
      SelectInstances = (\<lambda>p (s, calls).
        case SelectInstances c p s of
          (res, s') \<Rightarrow> (res, (s', calls @ [SelectInstances_call p])))\<rparr>"

definition spy :: "'c Registry \<Rightarrow> ('c \<times> call list) Registry" where
  \<comment> \<open>the same adapter on the recording client\<close>
  "spy r = \<lparr>opts = opts r, cli = recording (cli r)\<rparr>"

definition registration_of :: "options \<Rightarrow> ServiceInstance \<Rightarrow> string \<Rightarrow> call \<Rightarrow> bool" where
  \<comment> \<open>\<open>c\<close> is the registration call that belongs to \<open>endpoint\<close>: the endpoint parses, its
      authority splits, its port converts, and the call carries these parts\<close>
  "registration_of op si endpoint c =
     (case url_Parse endpoint of Inl _ \<Rightarrow> False
      | Inr u \<Rightarrow>
     (case net_SplitHostPort (Host u) of Inl _ \<Rightarrow> False
      | Inr (host, port) \<Rightarrow>
     (case strconv_Atoi port of Inl _ \<Rightarrow> False
      | Inr p \<Rightarrow>
          c = RegisterInstance_call
                \<lparr>RegisterInstanceParam.Ip = host,
                 RegisterInstanceParam.Port = word_of_int p,
                 RegisterInstanceParam.Weight = weight op,
                 RegisterInstanceParam.Enable = True,
                 RegisterInstanceParam.Healthy = True,
                 RegisterInstanceParam.Metadata =
                   [''kind'' \<mapsto> Scheme u, ''version'' \<mapsto> Version si]
                     ++ ServiceInstance.Metadata si,
                 RegisterInstanceParam.ClusterName = cluster op,
                 RegisterInstanceParam.ServiceName = Name si @ ''.'' @ Scheme u,
                 RegisterInstanceParam.GroupName = group op,
                 RegisterInstanceParam.Ephemeral = True\<rparr>)))"

definition deregistration_of :: "options \<Rightarrow> ServiceInstance \<Rightarrow> string \<Rightarrow> call \<Rightarrow> bool" where
  \<comment> \<open>\<open>c\<close> is the deregistration call that belongs to \<open>endpoint\<close>\<close>
  "deregistration_of op si endpoint c =
     (case url_Parse endpoint of Inl _ \<Rightarrow> False
      | Inr u \<Rightarrow>
     (case net_SplitHostPort (Host u) of Inl _ \<Rightarrow> False
      | Inr (host, port) \<Rightarrow>
     (case strconv_Atoi port of Inl _ \<Rightarrow> False
      | Inr p \<Rightarrow>
          c = DeregisterInstance_call
                \<lparr>DeregisterInstanceParam.Ip = host,
                 DeregisterInstanceParam.Port = word_of_int p,
                 DeregisterInstanceParam.Cluster = cluster op,
                 DeregisterInstanceParam.ServiceName = Name si @ ''.'' @ Scheme u,
                 DeregisterInstanceParam.GroupName = group op,
                 DeregisterInstanceParam.Ephemeral = True\<rparr>)))"

subsection \<open>An in-memory naming client\<close>

text \<open>
  A naming client that keeps the registrations it was given and answers queries from
  them, for running registration and discovery against each other. Registering an
  address again replaces its record; deregistering removes it; a query returns the
  records of the service name and group asked for, the healthy ones only when
  \<open>HealthyOnly\<close> is set, in any cluster when no cluster is named.
\<close>

definition same_address :: "RegisterInstanceParam \<Rightarrow> RegisterInstanceParam \<Rightarrow> bool" where
  "same_address p q =
     (RegisterInstanceParam.Ip p = RegisterInstanceParam.Ip q
      \<and> RegisterInstanceParam.Port p = RegisterInstanceParam.Port q
      \<and> RegisterInstanceParam.ClusterName p = RegisterInstanceParam.ClusterName q
      \<and> RegisterInstanceParam.ServiceName p = RegisterInstanceParam.ServiceName q
      \<and> RegisterInstanceParam.GroupName p = RegisterInstanceParam.GroupName q)"

definition instance_of :: "RegisterInstanceParam \<Rightarrow> Instance" where
  "instance_of q =
     \<lparr>InstanceId = RegisterInstanceParam.Ip q @ ''#''
                    @ FormatUint (uint (RegisterInstanceParam.Port q)) @ ''#''
                    @ RegisterInstanceParam.ClusterName q @ ''#''
                    @ RegisterInstanceParam.GroupName q @ ''@@''
                    @ RegisterInstanceParam.ServiceName q,
      Ip = RegisterInstanceParam.Ip q,
      Port = RegisterInstanceParam.Port q,
      Weight = RegisterInstanceParam.Weight q,
      Healthy = RegisterInstanceParam.Healthy q,
      Enable = RegisterInstanceParam.Enable q,
      Ephemeral = RegisterInstanceParam.Ephemeral q,
      ClusterName = RegisterInstanceParam.ClusterName q,
      ServiceName = RegisterInstanceParam.ServiceName q,
      Metadata = RegisterInstanceParam.Metadata q\<rparr>"

definition selected :: "SelectInstancesParam \<Rightarrow> RegisterInstanceParam \<Rightarrow> bool" where
  "selected p q =
     (RegisterInstanceParam.ServiceName q = SelectInstancesParam.ServiceName p
      \<and> RegisterInstanceParam.GroupName q = SelectInstancesParam.GroupName p
      \<and> (if HealthyOnly p then RegisterInstanceParam.Healthy q else True)
      \<and> (if Clusters p = [] then True
          else RegisterInstanceParam.ClusterName q \<in> set (Clusters p)))"

definition memory_client :: "RegisterInstanceParam list INamingClient" where
  "memory_client =
     \<lparr>RegisterInstance = (\<lambda>p st. (Inr True, filter (\<lambda>q. \<not> same_address p q) st @ [p])),
      DeregisterInstance = (\<lambda>p st.
        (Inr True,
         filter (\<lambda>q. \<not> (RegisterInstanceParam.Ip q = DeregisterInstanceParam.Ip p
                       \<and> RegisterInstanceParam.Port q = DeregisterInstanceParam.Port p
                       \<and> RegisterInstanceParam.ClusterName q = Cluster p
                       \<and> RegisterInstanceParam.ServiceName q
                           = DeregisterInstanceParam.ServiceName p
                       \<and> RegisterInstanceParam.GroupName q
                           = DeregisterInstanceParam.GroupName p)) st)),
      SelectInstances = (\<lambda>p st. (Inr (map instance_of (filter (selected p) st)), st))\<rparr>"

subsection \<open>Endpoints in plain form\<close>

text \<open>
  The endpoints \<open>scheme://host:port\<close> whose text is determined by its three parts: a
  scheme of lower-case letters, digits, \<open>+\<close>, \<open>-\<close> and \<open>.\<close> that starts with a letter, a
  host of letters, digits, \<open>-\<close>, \<open>.\<close>, \<open>_\<close> and \<open>~\<close>, and a port below \<open>2^63\<close> in decimal
  without leading zeros.
\<close>

definition scheme_byte :: "char \<Rightarrow> bool" where
  "scheme_byte c = (is_lower c \<or> is_digit c \<or> c = CHR ''+'' \<or> c = CHR ''-'' \<or> c = CHR ''.'')"

definition host_byte :: "char \<Rightarrow> bool" where
  "host_byte c =
     (is_lower c \<or> is_upper c \<or> is_digit c
      \<or> c = CHR ''-'' \<or> c = CHR ''.'' \<or> c = CHR ''_'' \<or> c = CHR ''~'')"

definition plain_parts :: "string \<times> string \<times> int \<Rightarrow> bool" where
  "plain_parts ep =
     (case ep of (k, h, n) \<Rightarrow>
        k \<noteq> [] \<and> is_lower (hd k) \<and> list_all scheme_byte k
        \<and> list_all host_byte h \<and> 0 \<le> n \<and> n < 2 ^ 63)"

definition endpoint_text :: "string \<times> string \<times> int \<Rightarrow> string" where
  "endpoint_text ep = (case ep of (k, h, n) \<Rightarrow> k @ ''://'' @ h @ '':'' @ FormatUint n)"

subsection \<open>Example instances and clients\<close>

definition pay :: ServiceInstance where
  "pay = \<lparr>ID = ''1'', Name = ''pay'', Version = ''v1'', Metadata = Map.empty,
        Endpoints = [''grpc://10.0.0.1:9000'']\<rparr>"

definition pay_param :: RegisterInstanceParam where
 "pay_param = \<lparr>RegisterInstanceParam.Ip = ''10.0.0.1'',
         RegisterInstanceParam.Port = 9000,
         RegisterInstanceParam.Weight = 100,
         RegisterInstanceParam.Enable = True,
         RegisterInstanceParam.Healthy = True,
         RegisterInstanceParam.Metadata = [''kind'' \<mapsto> ''grpc'', ''version'' \<mapsto> ''v1''],
         RegisterInstanceParam.ClusterName = ''DEFAULT'',
         RegisterInstanceParam.ServiceName = ''pay.grpc'',
         RegisterInstanceParam.GroupName = DEFAULT_GROUP,
         RegisterInstanceParam.Ephemeral = True\<rparr>"

definition endpoint_valid :: "string \<Rightarrow> bool" where
  "endpoint_valid endpoint =
     (case url_Parse endpoint of Inl _ \<Rightarrow> False
      | Inr u \<Rightarrow>
     (case net_SplitHostPort (Host u) of Inl _ \<Rightarrow> False
      | Inr (host, port) \<Rightarrow>
     (case strconv_Atoi port of Inl _ \<Rightarrow> False | Inr _ \<Rightarrow> True)))"

fun is_registration :: "call \<Rightarrow> bool" where
  "is_registration (RegisterInstance_call _) = True"
| "is_registration _ = False"

definition svc :: ServiceInstance where
  "svc = \<lparr>ID = ''1'', Name = ''svc'', Version = [], Metadata = Map.empty,
         Endpoints = [''grpc://h:1'', ''http://h:2'']\<rparr>"

definition svc_calls :: "call list" where
  "svc_calls =
     [DeregisterInstance_call
        \<lparr>DeregisterInstanceParam.Ip = ''h'', DeregisterInstanceParam.Port = 1,
         DeregisterInstanceParam.Cluster = ''DEFAULT'',
         DeregisterInstanceParam.ServiceName = ''svc.grpc'',
         DeregisterInstanceParam.GroupName = DEFAULT_GROUP,
         DeregisterInstanceParam.Ephemeral = True\<rparr>,
      DeregisterInstance_call
        \<lparr>DeregisterInstanceParam.Ip = ''h'', DeregisterInstanceParam.Port = 2,
         DeregisterInstanceParam.Cluster = ''DEFAULT'',
         DeregisterInstanceParam.ServiceName = ''svc.http'',
         DeregisterInstanceParam.GroupName = DEFAULT_GROUP,
         DeregisterInstanceParam.Ephemeral = True\<rparr>]"

definition refusing_after :: "nat \<Rightarrow> nat INamingClient" where
  \<comment> \<open>a client that counts the registrations it accepted and refuses beyond a quota\<close>
  "refusing_after quota =
     \<lparr>RegisterInstance = (\<lambda>p n. if n < quota then (Inr True, Suc n) else (Inl ''refused'', n)),
      DeregisterInstance = (\<lambda>p n. (Inr True, n)),
      SelectInstances = (\<lambda>p n. (Inr [], n))\<rparr>"

definition nameless :: ServiceInstance where
  "nameless = \<lparr>ID = ''1'', Name = [], Version = [], Metadata = Map.empty,
         Endpoints = [''grpc://h:1'', ''http://h:2'']\<rparr>"

definition nameless_calls :: "call list" where
  "nameless_calls =
     [DeregisterInstance_call
        \<lparr>DeregisterInstanceParam.Ip = ''h'', DeregisterInstanceParam.Port = 1,
         DeregisterInstanceParam.Cluster = ''DEFAULT'',
         DeregisterInstanceParam.ServiceName = ''.grpc'',
         DeregisterInstanceParam.GroupName = DEFAULT_GROUP,
         DeregisterInstanceParam.Ephemeral = True\<rparr>,
      DeregisterInstance_call
        \<lparr>DeregisterInstanceParam.Ip = ''h'', DeregisterInstanceParam.Port = 2,
         DeregisterInstanceParam.Cluster = ''DEFAULT'',
         DeregisterInstanceParam.ServiceName = ''.http'',
         DeregisterInstanceParam.GroupName = DEFAULT_GROUP,
         DeregisterInstanceParam.Ephemeral = True\<rparr>]"

definition two_schemes :: ServiceInstance where
  "two_schemes = \<lparr>ID = ''1'', Name = ''svc'', Version = ''v1'', Metadata = Map.empty,
         Endpoints = [''grpc://h:1'', ''http://h:2'', ''grpc://h:1'']\<rparr>"

definition registration :: "string \<Rightarrow> string \<Rightarrow> 64 word \<Rightarrow> RegisterInstanceParam" where
  \<comment> \<open>the registration of the instance svc, version v1, at host h under default options\<close>
  "registration k name p =
     \<lparr>RegisterInstanceParam.Ip = ''h'',
      RegisterInstanceParam.Port = p,
      RegisterInstanceParam.Weight = 100,
      RegisterInstanceParam.Enable = True,
      RegisterInstanceParam.Healthy = True,
      RegisterInstanceParam.Metadata = [''kind'' \<mapsto> k, ''version'' \<mapsto> ''v1''],
      RegisterInstanceParam.ClusterName = ''DEFAULT'',
      RegisterInstanceParam.ServiceName = name,
      RegisterInstanceParam.GroupName = DEFAULT_GROUP,
      RegisterInstanceParam.Ephemeral = True\<rparr>"

definition tagged :: ServiceInstance where
  "tagged = \<lparr>ID = ''1'', Name = ''svc'', Version = ''v1'',
         Metadata = [''kind'' \<mapsto> ''http'', ''zone'' \<mapsto> ''a''],
         Endpoints = [''grpc://h:1'']\<rparr>"

definition tagged_param :: RegisterInstanceParam where
  "tagged_param = (registration ''grpc'' ''svc.grpc'' 1)
     \<lparr>RegisterInstanceParam.Metadata :=
        [''kind'' \<mapsto> ''http'', ''version'' \<mapsto> ''v1'', ''zone'' \<mapsto> ''a'']\<rparr>"

definition untagged_param :: RegisterInstanceParam where
  "untagged_param = (registration ''grpc'' ''svc.grpc'' 2)
     \<lparr>RegisterInstanceParam.Metadata := Map.empty\<rparr>"

definition reconstruct :: "options \<Rightarrow> Instance \<Rightarrow> ServiceInstance" where
  \<comment> \<open>the service instance the loop of GetService appends for one record\<close>
  "reconstruct op inst =
     \<lparr>ID = InstanceId inst,
      Name = Instance.ServiceName inst,
      Version = (case Instance.Metadata inst ''version'' of Some v \<Rightarrow> v | None \<Rightarrow> []),
      Metadata = Instance.Metadata inst,
      Endpoints = [(case Instance.Metadata inst ''kind'' of Some k \<Rightarrow> k | None \<Rightarrow> kind op)
                     @ ''://'' @ Instance.Ip inst @ '':''
                     @ FormatUint (uint (Instance.Port inst))]\<rparr>"

definition discovered :: "ServiceInstance list" where
  "discovered =
     [\<lparr>ID = ''h#1#DEFAULT#DEFAULT_GROUP@@svc.grpc'', Name = ''svc.grpc'', Version = ''v1'',
       Metadata = [''kind'' \<mapsto> ''http'', ''version'' \<mapsto> ''v1'', ''zone'' \<mapsto> ''a''],
       Endpoints = [''http://h:1'']\<rparr>,
      \<lparr>ID = ''h#2#DEFAULT#DEFAULT_GROUP@@svc.grpc'', Name = ''svc.grpc'', Version = [],
       Metadata = Map.empty, Endpoints = [''grpc://h:2'']\<rparr>]"

definition decimal :: "string \<Rightarrow> int" where
  \<comment> \<open>the unsigned number a string of decimal digits denotes\<close>
  "decimal ds = foldl (\<lambda>n c. n * 10 + digit_val c) 0 ds"

definition broken :: "string \<Rightarrow> ServiceInstance" where
  \<comment> \<open>an instance whose second endpoint is the given one\<close>
  "broken e = \<lparr>ID = ''1'', Name = ''svc'', Version = ''v1'', Metadata = Map.empty,
         Endpoints = [''grpc://h:1'', e, ''http://h:2'']\<rparr>"

definition plain_registration ::
  "options \<Rightarrow> ServiceInstance \<Rightarrow> string \<times> string \<times> int \<Rightarrow> RegisterInstanceParam" where
  \<comment> \<open>the registration of an endpoint given by its parts\<close>
  "plain_registration op si ep =
     (case ep of (k, h, n) \<Rightarrow>
        \<lparr>RegisterInstanceParam.Ip = h,
         RegisterInstanceParam.Port = word_of_int n,
         RegisterInstanceParam.Weight = weight op,
         RegisterInstanceParam.Enable = True,
         RegisterInstanceParam.Healthy = True,
         RegisterInstanceParam.Metadata =
           [''kind'' \<mapsto> k, ''version'' \<mapsto> Version si] ++ ServiceInstance.Metadata si,
         RegisterInstanceParam.ClusterName = cluster op,
         RegisterInstanceParam.ServiceName = Name si @ ''.'' @ k,
         RegisterInstanceParam.GroupName = group op,
         RegisterInstanceParam.Ephemeral = True\<rparr>)"

definition padded :: ServiceInstance where
  "padded = \<lparr>ID = ''1'', Name = ''svc'', Version = ''v1'', Metadata = Map.empty,
         Endpoints = [''grpc://h:01'']\<rparr>"

definition plain :: ServiceInstance where
  "plain = \<lparr>ID = ''1'', Name = ''svc'', Version = ''v1'', Metadata = Map.empty,
         Endpoints = [''grpc://h:1'', ''http://h:2'', ''grpc://h:1'']\<rparr>"

definition tagged_found :: ServiceInstance where
  "tagged_found =
     \<lparr>ID = ''h#1#DEFAULT#DEFAULT_GROUP@@svc.grpc'', Name = ''svc.grpc'', Version = ''v1'',
      Metadata = [''kind'' \<mapsto> ''http'', ''version'' \<mapsto> ''v1'', ''zone'' \<mapsto> ''a''],
      Endpoints = [''http://h:1'']\<rparr>"

definition padded_found :: ServiceInstance where
  "padded_found =
     \<lparr>ID = ''h#1#DEFAULT#DEFAULT_GROUP@@svc.grpc'', Name = ''svc.grpc'', Version = ''v1'',
      Metadata = [''kind'' \<mapsto> ''grpc'', ''version'' \<mapsto> ''v1''],
      Endpoints = [''grpc://h:1'']\<rparr>"

section \<open>Properties\<close>

subsection \<open>The recording client\<close>

lemma spy_simps [simp]: "opts (spy r) = opts r" "cli (spy r) = recording (cli r)"
  by (simp_all add: spy_def)

lemma recording_RegisterInstance:
  "RegisterInstance (recording c) p (s, tr) =
     (fst (RegisterInstance c p s), (snd (RegisterInstance c p s), tr @ [RegisterInstance_call p]))"
  by (simp add: recording_def split: prod.splits)

lemma recording_DeregisterInstance:
  "DeregisterInstance (recording c) p (s, tr) =
     (fst (DeregisterInstance c p s), (snd (DeregisterInstance c p s), tr @ [DeregisterInstance_call p]))"
  by (simp add: recording_def split: prod.splits)

lemma Register_loop_append:
  "Register_loop r si (xs @ ys) s =
     (case Register_loop r si xs s of
        (None, s') \<Rightarrow> Register_loop r si ys s'
      | (Some err, s') \<Rightarrow> (Some err, s'))"
  by (induction xs arbitrary: s) (auto split: sum.splits prod.splits option.splits)

lemma Register_loop_calls:
  "Register_loop (spy r) si es (s, tr) = (res, (s', tr')) \<Longrightarrow>
   \<exists>cs. tr' = tr @ cs \<and> list_all2 (registration_of (opts r) si) (take (length cs) es) cs
        \<and> length cs \<le> length es \<and> (res = None \<longrightarrow> length cs = length es)"
proof (induction es arbitrary: s tr)
  case Nil
  then show ?case by simp
next
  case (Cons e es)
  show ?case
  proof (cases "url_Parse e")
    case (Inl err)
    with Cons.prems show ?thesis by auto
  next
    case u: (Inr u)
    show ?thesis
    proof (cases "net_SplitHostPort (Host u)")
      case (Inl err)
      with Cons.prems u show ?thesis by auto
    next
      case (Inr hp)
      obtain host port where hp: "hp = (host, port)" by (cases hp)
      show ?thesis
      proof (cases "strconv_Atoi port")
        case (Inl err)
        with Cons.prems u Inr hp show ?thesis by auto
      next
        case p: (Inr p)
        define prm where "prm = \<lparr>RegisterInstanceParam.Ip = host,
                 RegisterInstanceParam.Port = word_of_int p,
                 RegisterInstanceParam.Weight = weight (opts r),
                 RegisterInstanceParam.Enable = True,
                 RegisterInstanceParam.Healthy = True,
                 RegisterInstanceParam.Metadata =
                   [''kind'' \<mapsto> Scheme u, ''version'' \<mapsto> Version si]
                     ++ ServiceInstance.Metadata si,
                 RegisterInstanceParam.ClusterName = cluster (opts r),
                 RegisterInstanceParam.ServiceName = Name si @ ''.'' @ Scheme u,
                 RegisterInstanceParam.GroupName = group (opts r),
                 RegisterInstanceParam.Ephemeral = True\<rparr>"
        have reg: "registration_of (opts r) si e (RegisterInstance_call prm)"
          by (simp add: registration_of_def u Inr hp p prm_def)
        obtain a s1 where call: "RegisterInstance (cli r) prm s = (a, s1)"
          by (cases "RegisterInstance (cli r) prm s")
        show ?thesis
        proof (cases a)
          case (Inl msg)
          with Cons.prems u Inr hp p call have "tr' = tr @ [RegisterInstance_call prm]" "res \<noteq> None"
            by (auto simp: recording_RegisterInstance prm_def)
          with reg show ?thesis by auto
        next
          case ok: (Inr b)
          with Cons.prems u Inr hp p call
          have "Register_loop (spy r) si es (s1, tr @ [RegisterInstance_call prm]) = (res, (s', tr'))"
            by (auto simp: recording_RegisterInstance prm_def)
          from Cons.IH [OF this] obtain cs where
            cs: "tr' = (tr @ [RegisterInstance_call prm]) @ cs"
              "list_all2 (registration_of (opts r) si) (take (length cs) es) cs"
              "length cs \<le> length es" "res = None \<longrightarrow> length cs = length es"
            by blast
          then show ?thesis using reg
            by (intro exI [of _ "RegisterInstance_call prm # cs"]) simp
        qed
      qed
    qed
  qed
qed

subsection \<open>Register\<close>

text \<open>
  C6. Register on an instance whose Name is the empty string returns the error
  ErrServiceInstanceNameEmpty and makes no call on the client, whatever the instance's
  endpoints, version and metadata, and whatever the client: the client's state and the
  log of calls are as before.
\<close>

theorem Register_empty_name:
  "Register (spy r) (si\<lparr>Name := []\<rparr>) (s, calls) = (Some ErrServiceInstanceNameEmpty, (s, calls))"
  by (simp add: Register_def)

lemma parse_pay:
  "url_Parse ''grpc://10.0.0.1:9000'' = Inr \<lparr>Scheme = ''grpc'', Host = ''10.0.0.1:9000''\<rparr>"
  by code_simp

lemma split_pay: "net_SplitHostPort ''10.0.0.1:9000'' = Inr (''10.0.0.1'', ''9000'')"
  by code_simp

lemma atoi_9000: "strconv_Atoi ''9000'' = Inr 9000"
  by code_simp

lemma New_default:
  "opts (New c []) =
     \<lparr>prefix = ''/microservices'', weight = 100, cluster = ''DEFAULT'',
      group = DEFAULT_GROUP, kind = ''grpc''\<rparr>"
  "cli (New c []) = c"
  by (simp_all add: New_def)

lemma Register_pay:
  "snd (snd (Register (spy (New c []))
       \<lparr>ID = i, Name = ''pay'', Version = ''v1'', Metadata = Map.empty,
        Endpoints = [''grpc://10.0.0.1:9000'']\<rparr> (s0, []))) =
     [RegisterInstance_call
        \<lparr>RegisterInstanceParam.Ip = ''10.0.0.1'',
         RegisterInstanceParam.Port = 9000,
         RegisterInstanceParam.Weight = 100,
         RegisterInstanceParam.Enable = True,
         RegisterInstanceParam.Healthy = True,
         RegisterInstanceParam.Metadata = [''kind'' \<mapsto> ''grpc'', ''version'' \<mapsto> ''v1''],
         RegisterInstanceParam.ClusterName = ''DEFAULT'',
         RegisterInstanceParam.ServiceName = ''pay.grpc'',
         RegisterInstanceParam.GroupName = DEFAULT_GROUP,
         RegisterInstanceParam.Ephemeral = True\<rparr>]"
  by (simp add: Register_def parse_pay split_pay atoi_9000 New_default Let_def
        recording_RegisterInstance split: sum.splits prod.splits)

lemma Register_pay_memory:
  "Register (spy (New memory_client [])) pay ([], []) =
     (None, ([pay_param], [RegisterInstance_call pay_param]))"
  by (simp add: Register_def pay_def pay_param_def parse_pay split_pay atoi_9000 New_default
        Let_def recording_RegisterInstance memory_client_def)

lemma registration_of_iff:
  "registration_of op si e c \<longleftrightarrow>
     (\<exists>u host port p. url_Parse e = Inr u \<and> net_SplitHostPort (Host u) = Inr (host, port)
        \<and> strconv_Atoi port = Inr p
        \<and> c = RegisterInstance_call
                \<lparr>RegisterInstanceParam.Ip = host,
                 RegisterInstanceParam.Port = word_of_int p,
                 RegisterInstanceParam.Weight = weight op,
                 RegisterInstanceParam.Enable = True,
                 RegisterInstanceParam.Healthy = True,
                 RegisterInstanceParam.Metadata =
                   [''kind'' \<mapsto> Scheme u, ''version'' \<mapsto> Version si]
                     ++ ServiceInstance.Metadata si,
                 RegisterInstanceParam.ClusterName = cluster op,
                 RegisterInstanceParam.ServiceName = Name si @ ''.'' @ Scheme u,
                 RegisterInstanceParam.GroupName = group op,
                 RegisterInstanceParam.Ephemeral = True\<rparr>)"
proof (cases "url_Parse e")
  case (Inl err)
  then show ?thesis by (simp add: registration_of_def)
next
  case u: (Inr u)
  show ?thesis
  proof (cases "net_SplitHostPort (Host u)")
    case (Inl err)
    with u show ?thesis by (simp add: registration_of_def)
  next
    case (Inr hp)
    obtain host port where hp: "hp = (host, port)" by (cases hp)
    show ?thesis
      using u Inr hp by (cases "strconv_Atoi port") (simp_all add: registration_of_def)
  qed
qed

text \<open>
  C1. For every service instance with a non-empty Name, Register makes one registration
  call per endpoint, in the order of the endpoints: whatever the outcome, the calls made
  belong to the first endpoints one by one, and when Register returns nil there is one for
  every endpoint. The call of an endpoint has Ip and Port from the parsed endpoint,
  ServiceName the instance name, a dot and the endpoint's scheme, the configured weight,
  cluster and group, Enable, Healthy and Ephemeral true, and the merged metadata.
  Registering the instance pay, version v1, endpoint grpc://10.0.0.1:9000, with default
  options makes the call with ServiceName pay.grpc, Ip 10.0.0.1, Port 9000, Weight 100
  and metadata kind grpc, version v1, whatever the client answers.
\<close>

theorem Register_calls:
  "(Name si \<noteq> [] \<and> Register (spy r) si (s, []) = (res, (s', calls)) \<longrightarrow>
      list_all2 (registration_of (opts r) si) (take (length calls) (Endpoints si)) calls
      \<and> (res = None \<longrightarrow> list_all2 (registration_of (opts r) si) (Endpoints si) calls))
   \<and> snd (snd (Register (spy (New c []))
       \<lparr>ID = i, Name = ''pay'', Version = ''v1'', Metadata = Map.empty,
        Endpoints = [''grpc://10.0.0.1:9000'']\<rparr> (s0, []))) =
     [RegisterInstance_call
        \<lparr>RegisterInstanceParam.Ip = ''10.0.0.1'',
         RegisterInstanceParam.Port = 9000,
         RegisterInstanceParam.Weight = 100,
         RegisterInstanceParam.Enable = True,
         RegisterInstanceParam.Healthy = True,
         RegisterInstanceParam.Metadata = [''kind'' \<mapsto> ''grpc'', ''version'' \<mapsto> ''v1''],
         RegisterInstanceParam.ClusterName = ''DEFAULT'',
         RegisterInstanceParam.ServiceName = ''pay.grpc'',
         RegisterInstanceParam.GroupName = DEFAULT_GROUP,
         RegisterInstanceParam.Ephemeral = True\<rparr>]"
proof (intro conjI impI)
  assume a: "Name si \<noteq> [] \<and> Register (spy r) si (s, []) = (res, (s', calls))"
  then have "Register_loop (spy r) si (Endpoints si) (s, []) = (res, (s', calls))"
    by (auto simp: Register_def)
  from Register_loop_calls [OF this]
  show all: "list_all2 (registration_of (opts r) si) (take (length calls) (Endpoints si)) calls"
    and "res = None \<Longrightarrow> list_all2 (registration_of (opts r) si) (Endpoints si) calls"
    by auto
qed (rule Register_pay)

theorem Register_calls_witness:
  "Name pay \<noteq> []
   \<and> Register (spy (New memory_client [])) pay ([], [])
       = (None, ([pay_param], [RegisterInstance_call pay_param]))
   \<and> list_all2 (registration_of (opts (New memory_client [])) pay) (Endpoints pay)
        [RegisterInstance_call pay_param]"
  using Register_calls [where si = pay and r = "New memory_client []" and s = "[]"
      and res = None and s' = "[pay_param]" and calls = "[RegisterInstance_call pay_param]",
      THEN conjunct1] Register_pay_memory
  by (simp add: pay_def)

subsection \<open>Deregister\<close>

lemma endpoint_valid_iff:
  "endpoint_valid e \<longleftrightarrow>
     (\<exists>u host port p. url_Parse e = Inr u \<and> net_SplitHostPort (Host u) = Inr (host, port)
        \<and> strconv_Atoi port = Inr p)"
proof (cases "url_Parse e")
  case (Inl err)
  then show ?thesis by (simp add: endpoint_valid_def)
next
  case u: (Inr u)
  show ?thesis
  proof (cases "net_SplitHostPort (Host u)")
    case (Inl err)
    with u show ?thesis by (simp add: endpoint_valid_def)
  next
    case (Inr hp)
    obtain host port where hp: "hp = (host, port)" by (cases hp)
    show ?thesis
      using u Inr hp by (cases "strconv_Atoi port") (simp_all add: endpoint_valid_def)
  qed
qed

lemma deregistration_of_iff:
  "deregistration_of op si e c \<longleftrightarrow>
     (\<exists>u host port p. url_Parse e = Inr u \<and> net_SplitHostPort (Host u) = Inr (host, port)
        \<and> strconv_Atoi port = Inr p
        \<and> c = DeregisterInstance_call
                \<lparr>DeregisterInstanceParam.Ip = host,
                 DeregisterInstanceParam.Port = word_of_int p,
                 DeregisterInstanceParam.Cluster = cluster op,
                 DeregisterInstanceParam.ServiceName = Name si @ ''.'' @ Scheme u,
                 DeregisterInstanceParam.GroupName = group op,
                 DeregisterInstanceParam.Ephemeral = True\<rparr>)"
proof (cases "url_Parse e")
  case (Inl err)
  then show ?thesis by (simp add: deregistration_of_def)
next
  case u: (Inr u)
  show ?thesis
  proof (cases "net_SplitHostPort (Host u)")
    case (Inl err)
    with u show ?thesis by (simp add: deregistration_of_def)
  next
    case (Inr hp)
    obtain host port where hp: "hp = (host, port)" by (cases hp)
    show ?thesis
      using u Inr hp by (cases "strconv_Atoi port") (simp_all add: deregistration_of_def)
  qed
qed

lemma Deregister_loop_calls:
  "Deregister_loop (spy r) si es (s, tr) = (res, (s', tr')) \<Longrightarrow>
   \<exists>cs. tr' = tr @ cs \<and> list_all2 (deregistration_of (opts r) si) (take (length cs) es) cs
        \<and> length cs \<le> length es \<and> (res = None \<longrightarrow> length cs = length es)
        \<and> res \<noteq> Some ErrServiceInstanceNameEmpty"
proof (induction es arbitrary: s tr)
  case Nil
  then show ?case by simp
next
  case (Cons e es)
  show ?case
  proof (cases "url_Parse e")
    case (Inl err)
    with Cons.prems show ?thesis by (auto simp: url_Parse_def Let_def split: sum.splits if_splits)
  next
    case u: (Inr u)
    show ?thesis
    proof (cases "net_SplitHostPort (Host u)")
      case (Inl err)
      with Cons.prems u show ?thesis
        by (auto simp: net_SplitHostPort_def split: option.splits if_splits)
    next
      case (Inr hp)
      obtain host port where hp: "hp = (host, port)" by (cases hp)
      show ?thesis
      proof (cases "strconv_Atoi port")
        case (Inl err)
        with Cons.prems u Inr hp show ?thesis
          by (auto simp: strconv_Atoi_def Let_def split: sum.splits if_splits)
      next
        case p: (Inr p)
        define prm where "prm = \<lparr>DeregisterInstanceParam.Ip = host,
                 DeregisterInstanceParam.Port = word_of_int p,
                 DeregisterInstanceParam.Cluster = cluster (opts r),
                 DeregisterInstanceParam.ServiceName = Name si @ ''.'' @ Scheme u,
                 DeregisterInstanceParam.GroupName = group (opts r),
                 DeregisterInstanceParam.Ephemeral = True\<rparr>"
        have reg: "deregistration_of (opts r) si e (DeregisterInstance_call prm)"
          by (simp add: deregistration_of_def u Inr hp p prm_def)
        obtain a s1 where call: "DeregisterInstance (cli r) prm s = (a, s1)"
          by (cases "DeregisterInstance (cli r) prm s")
        show ?thesis
        proof (cases a)
          case (Inl msg)
          with Cons.prems u Inr hp p call
          have "tr' = tr @ [DeregisterInstance_call prm]" "res = Some (ClientError msg)"
            by (auto simp: recording_DeregisterInstance prm_def)
          with reg show ?thesis by auto
        next
          case ok: (Inr b)
          with Cons.prems u Inr hp p call
          have "Deregister_loop (spy r) si es (s1, tr @ [DeregisterInstance_call prm])
                  = (res, (s', tr'))"
            by (auto simp: recording_DeregisterInstance prm_def)
          from Cons.IH [OF this] obtain cs where
            cs: "tr' = (tr @ [DeregisterInstance_call prm]) @ cs"
              "list_all2 (deregistration_of (opts r) si) (take (length cs) es) cs"
              "length cs \<le> length es" "res = None \<longrightarrow> length cs = length es"
              "res \<noteq> Some ErrServiceInstanceNameEmpty"
            by blast
          then show ?thesis using reg
            by (intro exI [of _ "DeregisterInstance_call prm # cs"]) simp
        qed
      qed
    qed
  qed
qed

lemma Deregister_loop_ok:
  assumes "\<forall>p t. \<exists>b t'. DeregisterInstance (cli r) p t = (Inr b, t')"
  shows "list_all endpoint_valid es \<Longrightarrow> fst (Deregister_loop (spy r) si es (s, tr)) = None"
proof (induction es arbitrary: s tr)
  case Nil
  then show ?case by simp
next
  case (Cons e es)
  from Cons.prems obtain u host port p where
    v: "url_Parse e = Inr u" "net_SplitHostPort (Host u) = Inr (host, port)"
       "strconv_Atoi port = Inr p"
    by (auto simp: endpoint_valid_iff)
  define prm where "prm = \<lparr>DeregisterInstanceParam.Ip = host,
                 DeregisterInstanceParam.Port = word_of_int p,
                 DeregisterInstanceParam.Cluster = cluster (opts r),
                 DeregisterInstanceParam.ServiceName = Name si @ ''.'' @ Scheme u,
                 DeregisterInstanceParam.GroupName = group (opts r),
                 DeregisterInstanceParam.Ephemeral = True\<rparr>"
  from assms obtain b t' where ok: "DeregisterInstance (cli r) prm s = (Inr b, t')"
    by blast
  have "Deregister_loop (spy r) si (e # es) (s, tr)
          = Deregister_loop (spy r) si es (t', tr @ [DeregisterInstance_call prm])"
    using v ok by (simp add: recording_DeregisterInstance prm_def)
  with Cons show ?case by simp
qed

lemma deregistration_of_ServiceName:
  "deregistration_of op si e c \<Longrightarrow>
   \<exists>u p. url_Parse e = Inr u \<and> c = DeregisterInstance_call p
      \<and> DeregisterInstanceParam.ServiceName p = Name si @ ''.'' @ Scheme u"
  by (auto simp: deregistration_of_iff)

lemma parse_svc:
  "url_Parse ''grpc://h:1'' = Inr \<lparr>Scheme = ''grpc'', Host = ''h:1''\<rparr>"
  "url_Parse ''http://h:2'' = Inr \<lparr>Scheme = ''http'', Host = ''h:2''\<rparr>"
  "net_SplitHostPort ''h:1'' = Inr (''h'', ''1'')"
  "net_SplitHostPort ''h:2'' = Inr (''h'', ''2'')"
  "strconv_Atoi ''1'' = Inr 1"
  "strconv_Atoi ''2'' = Inr 2"
  by code_simp+

lemma Deregister_svc:
  "Deregister (spy (New c [])) \<lparr>ID = i, Name = ''svc'', Version = v, Metadata = m,
         Endpoints = [''grpc://h:1'', ''http://h:2'']\<rparr> (s0, []) = (None, (s0', calls0))
   \<Longrightarrow> calls0 = svc_calls"
  by (auto simp add: Deregister_def parse_svc New_default Let_def svc_calls_def
        recording_DeregisterInstance split: sum.splits prod.splits)

lemma Deregister_svc_memory:
  "Deregister (spy (New memory_client [])) svc ([], []) = (None, ([], svc_calls))"
  by (simp add: Deregister_def svc_def svc_calls_def parse_svc New_default
        Let_def recording_DeregisterInstance memory_client_def)

lemma Deregister_nameless_memory:
  "Deregister (spy (New memory_client [])) nameless ([], []) = (None, ([], nameless_calls))"
  by (simp add: Deregister_def nameless_def nameless_calls_def parse_svc New_default
        Let_def recording_DeregisterInstance memory_client_def)

lemma nameless_valid: "list_all endpoint_valid (Endpoints nameless)"
  by (simp add: nameless_def endpoint_valid_def parse_svc)

text \<open>
  C2. For every service instance, Deregister makes one deregistration call per endpoint,
  in the order of the endpoints: whatever the outcome, the calls made belong to the first
  endpoints one by one, and when Deregister returns nil there is exactly one for every
  endpoint. The call of an endpoint is keyed by the instance name, a dot and the
  endpoint's scheme, the configured cluster and group, and Ephemeral true. For the
  instance svc with endpoints grpc://h:1 and http://h:2 the calls are those for svc.grpc
  and svc.http.
\<close>

theorem Deregister_calls:
  "(Deregister (spy r) si (s, []) = (res, (s', calls)) \<longrightarrow>
      list_all2 (deregistration_of (opts r) si) (take (length calls) (Endpoints si)) calls
      \<and> (res = None \<longrightarrow> list_all2 (deregistration_of (opts r) si) (Endpoints si) calls))
   \<and> (Deregister (spy (New c [])) \<lparr>ID = i, Name = ''svc'', Version = v, Metadata = m,
         Endpoints = [''grpc://h:1'', ''http://h:2'']\<rparr> (s0, []) = (None, (s0', calls0))
       \<longrightarrow> calls0 = svc_calls)"
proof (intro conjI impI)
  assume "Deregister (spy r) si (s, []) = (res, (s', calls))"
  then have "Deregister_loop (spy r) si (Endpoints si) (s, []) = (res, (s', calls))"
    by (simp add: Deregister_def)
  from Deregister_loop_calls [OF this]
  show "list_all2 (deregistration_of (opts r) si) (take (length calls) (Endpoints si)) calls"
    and "res = None \<Longrightarrow> list_all2 (deregistration_of (opts r) si) (Endpoints si) calls"
    by auto
qed (rule Deregister_svc)

theorem Deregister_calls_witness:
  "Deregister (spy (New memory_client [])) svc ([], []) = (None, ([], svc_calls))
   \<and> list_all2 (deregistration_of (opts (New memory_client [])) svc) (Endpoints svc) svc_calls"
  using Deregister_calls [where si = svc and r = "New memory_client []" and s = "[]"
      and res = None and s' = "[]" and calls = svc_calls, THEN conjunct1]
    Deregister_svc_memory
  by simp

text \<open>
  C10. Deregister does not validate the name. For an instance whose Name is the empty
  string, Deregister never returns ErrServiceInstanceNameEmpty; every call it makes is the
  deregistration that belongs to its endpoint, with ServiceName a dot followed by the
  endpoint's scheme; and when all endpoints are well-formed and the client accepts
  deregistrations, it returns nil after one call per endpoint.
\<close>

theorem Deregister_empty_name:
  "Deregister (spy r) (si\<lparr>Name := []\<rparr>) (s, []) = (res, (s', calls)) \<longrightarrow>
     res \<noteq> Some ErrServiceInstanceNameEmpty
     \<and> list_all2 (\<lambda>e c. \<exists>u p. url_Parse e = Inr u \<and> c = DeregisterInstance_call p
                    \<and> DeregisterInstanceParam.ServiceName p = ''.'' @ Scheme u)
          (take (length calls) (Endpoints si)) calls
     \<and> (list_all endpoint_valid (Endpoints si)
          \<and> (\<forall>p t. \<exists>b t'. DeregisterInstance (cli r) p t = (Inr b, t'))
        \<longrightarrow> res = None \<and> length calls = length (Endpoints si))"
proof (intro impI)
  assume a: "Deregister (spy r) (si\<lparr>Name := []\<rparr>) (s, []) = (res, (s', calls))"
  then have loop: "Deregister_loop (spy r) (si\<lparr>Name := []\<rparr>) (Endpoints si) (s, [])
                     = (res, (s', calls))"
    by (simp add: Deregister_def)
  from Deregister_loop_calls [OF loop]
  have all: "list_all2 (deregistration_of (opts r) (si\<lparr>Name := []\<rparr>))
               (take (length calls) (Endpoints si)) calls"
    and full: "res = None \<longrightarrow> length calls = length (Endpoints si)"
    and noname: "res \<noteq> Some ErrServiceInstanceNameEmpty"
    by auto
  have names: "list_all2 (\<lambda>e c. \<exists>u p. url_Parse e = Inr u \<and> c = DeregisterInstance_call p
                    \<and> DeregisterInstanceParam.ServiceName p = ''.'' @ Scheme u)
          (take (length calls) (Endpoints si)) calls"
    by (rule list_all2_mono [OF all]) (drule deregistration_of_ServiceName, simp)
  have "res = None"
    if "list_all endpoint_valid (Endpoints si)"
      and "\<forall>p t. \<exists>b t'. DeregisterInstance (cli r) p t = (Inr b, t')"
    using Deregister_loop_ok [OF that(2) that(1), of "si\<lparr>Name := []\<rparr>" s "[]"] loop
    by simp
  with noname names full show "res \<noteq> Some ErrServiceInstanceNameEmpty
     \<and> list_all2 (\<lambda>e c. \<exists>u p. url_Parse e = Inr u \<and> c = DeregisterInstance_call p
                    \<and> DeregisterInstanceParam.ServiceName p = ''.'' @ Scheme u)
          (take (length calls) (Endpoints si)) calls
     \<and> (list_all endpoint_valid (Endpoints si)
          \<and> (\<forall>p t. \<exists>b t'. DeregisterInstance (cli r) p t = (Inr b, t'))
        \<longrightarrow> res = None \<and> length calls = length (Endpoints si))"
    by blast
qed

theorem Deregister_empty_name_witness:
  "Deregister (spy (New memory_client [])) nameless ([], []) = (None, ([], nameless_calls))
   \<and> list_all endpoint_valid (Endpoints nameless)
   \<and> (\<forall>p t. \<exists>b t'. DeregisterInstance (cli (New memory_client [])) p t = (Inr b, t'))
   \<and> length nameless_calls = length (Endpoints nameless)
   \<and> list_all2 (\<lambda>e c. \<exists>u p. url_Parse e = Inr u \<and> c = DeregisterInstance_call p
                    \<and> DeregisterInstanceParam.ServiceName p = ''.'' @ Scheme u)
          (Endpoints nameless) nameless_calls"
  using Deregister_empty_name [where si = nameless and r = "New memory_client []" and s = "[]"
      and res = None and s' = "[]" and calls = nameless_calls]
    Deregister_nameless_memory nameless_valid
  by (auto simp add: nameless_def nameless_calls_def New_default memory_client_def)

subsection \<open>Register: failure of the client, metadata\<close>

lemma Register_loop_Endpoints:
  "Register_loop r (si\<lparr>Endpoints := x\<rparr>) es s = Register_loop r si es s"
  by (induction es arbitrary: s) (simp_all split: sum.splits prod.splits)

lemma registration_of_is_registration: "registration_of op si e c \<Longrightarrow> is_registration c"
  by (auto simp: registration_of_iff)

lemma list_all2_is_registration:
  "list_all2 (registration_of op si) es cs \<Longrightarrow> list_all is_registration cs"
  by (induction rule: list_all2_induct) (auto dest: registration_of_is_registration)

lemma Register_two_schemes_pre:
  "Register (spy \<lparr>opts = opts (New c []), cli = refusing_after 1\<rparr>)
      (two_schemes\<lparr>Endpoints := [''grpc://h:1'']\<rparr>) (0, [])
     = (None, (1, [RegisterInstance_call (registration ''grpc'' ''svc.grpc'' 1)]))"
  by (simp add: Register_def two_schemes_def registration_def parse_svc New_default
        Let_def recording_RegisterInstance refusing_after_def)

lemma registration_of_two_schemes:
  "registration_of (opts (New c [])) two_schemes ''http://h:2''
     (RegisterInstance_call (registration ''http'' ''svc.http'' 2))"
  by (simp add: registration_of_def two_schemes_def registration_def parse_svc New_default)

text \<open>
  C7. When the client's registration call fails for an endpoint, after the endpoints
  before it were registered, Register returns the error whose text is the client's error
  followed by the failing endpoint, and stops: the endpoints after it play no part in the
  result and no call is made for them. The log holds one registration per endpoint up to
  and including the failing one and nothing else: what was registered before is not
  taken back, no deregistration call is made.
\<close>

theorem Register_client_failure:
  "Name si \<noteq> [] \<and> Endpoints si = pre @ e # post
   \<and> Register (spy r) (si\<lparr>Endpoints := pre\<rparr>) (s, []) = (None, (t, cs))
   \<and> registration_of (opts r) si e (RegisterInstance_call prm)
   \<and> RegisterInstance (cli r) prm t = (Inl msg, t')
   \<longrightarrow> Register (spy r) si (s, [])
         = (Some (Errorf (''RegisterInstance err: '' @ msg @ '', '' @ e)),
            (t', cs @ [RegisterInstance_call prm]))
       \<and> length (cs @ [RegisterInstance_call prm]) = length pre + 1
       \<and> list_all is_registration (cs @ [RegisterInstance_call prm])"
proof (intro impI, elim conjE)
  assume name: "Name si \<noteq> []" and es: "Endpoints si = pre @ e # post"
    and pre: "Register (spy r) (si\<lparr>Endpoints := pre\<rparr>) (s, []) = (None, (t, cs))"
    and reg: "registration_of (opts r) si e (RegisterInstance_call prm)"
    and fail: "RegisterInstance (cli r) prm t = (Inl msg, t')"
  from pre name have loop: "Register_loop (spy r) si pre (s, []) = (None, (t, cs))"
    by (simp add: Register_def Register_loop_Endpoints)
  from reg obtain u host port p where
    v: "url_Parse e = Inr u" "net_SplitHostPort (Host u) = Inr (host, port)"
       "strconv_Atoi port = Inr p"
    and prm: "prm = \<lparr>RegisterInstanceParam.Ip = host,
                 RegisterInstanceParam.Port = word_of_int p,
                 RegisterInstanceParam.Weight = weight (opts r),
                 RegisterInstanceParam.Enable = True,
                 RegisterInstanceParam.Healthy = True,
                 RegisterInstanceParam.Metadata =
                   [''kind'' \<mapsto> Scheme u, ''version'' \<mapsto> Version si]
                     ++ ServiceInstance.Metadata si,
                 RegisterInstanceParam.ClusterName = cluster (opts r),
                 RegisterInstanceParam.ServiceName = Name si @ ''.'' @ Scheme u,
                 RegisterInstanceParam.GroupName = group (opts r),
                 RegisterInstanceParam.Ephemeral = True\<rparr>"
    by (auto simp: registration_of_iff)
  have step: "Register_loop (spy r) si (e # post) (t, cs)
          = (Some (Errorf (''RegisterInstance err: '' @ msg @ '', '' @ e)),
             (t', cs @ [RegisterInstance_call prm]))"
    using v fail unfolding prm by (simp add: recording_RegisterInstance Let_def)
  have run: "Register (spy r) si (s, [])
         = (Some (Errorf (''RegisterInstance err: '' @ msg @ '', '' @ e)),
            (t', cs @ [RegisterInstance_call prm]))"
    using name es loop step by (simp add: Register_def Register_loop_append)
  from Register_loop_calls [OF loop]
  have all: "list_all2 (registration_of (opts r) si) pre cs"
    by auto
  then have "length cs = length pre" "list_all is_registration cs"
    by (auto dest: list_all2_lengthD list_all2_is_registration)
  with run show "Register (spy r) si (s, [])
         = (Some (Errorf (''RegisterInstance err: '' @ msg @ '', '' @ e)),
            (t', cs @ [RegisterInstance_call prm]))
       \<and> length (cs @ [RegisterInstance_call prm]) = length pre + 1
       \<and> list_all is_registration (cs @ [RegisterInstance_call prm])"
    by simp
qed

theorem Register_client_failure_witness:
  "Name two_schemes \<noteq> []
   \<and> Endpoints two_schemes = [''grpc://h:1''] @ ''http://h:2'' # [''grpc://h:1'']
   \<and> RegisterInstance (refusing_after 1) (registration ''http'' ''svc.http'' 2) 1
       = (Inl ''refused'', 1)
   \<and> Register (spy \<lparr>opts = opts (New memory_client []), cli = refusing_after 1\<rparr>)
        two_schemes (0, [])
       = (Some (Errorf ''RegisterInstance err: refused, http://h:2''),
          (1, [RegisterInstance_call (registration ''grpc'' ''svc.grpc'' 1),
               RegisterInstance_call (registration ''http'' ''svc.http'' 2)]))"
  using Register_client_failure [where si = two_schemes
      and r = "\<lparr>opts = opts (New memory_client []), cli = refusing_after 1\<rparr>"
      and pre = "[''grpc://h:1'']" and e = "''http://h:2''" and post = "[''grpc://h:1'']"
      and s = 0 and t = 1 and t' = 1 and msg = "''refused''"
      and cs = "[RegisterInstance_call (registration ''grpc'' ''svc.grpc'' 1)]"
      and prm = "registration ''http'' ''svc.http'' 2"]
    Register_two_schemes_pre [of memory_client] registration_of_two_schemes [of memory_client]
  by (simp add: two_schemes_def refusing_after_def)

lemma Register_tagged:
  "Register (spy (New memory_client [])) tagged ([], [])
     = (None, ([tagged_param], [RegisterInstance_call tagged_param]))"
  by (simp add: Register_def tagged_def tagged_param_def registration_def parse_svc
        New_default Let_def recording_RegisterInstance memory_client_def fun_eq_iff map_add_def)

text \<open>
  C8. In every registration call Register makes, the metadata is the mapping
  kind: scheme of the endpoint, version: version of the instance, overlaid with the
  instance's own metadata: at every key the instance's value when it has one (also at
  kind and version), otherwise the value of that mapping.
\<close>

theorem Register_metadata:
  "Register (spy r) si (s, []) = (res, (s', calls)) \<and> n < length calls \<longrightarrow>
     (\<exists>u p. url_Parse (Endpoints si ! n) = Inr u \<and> calls ! n = RegisterInstance_call p
        \<and> (\<forall>k. RegisterInstanceParam.Metadata p k =
              (case ServiceInstance.Metadata si k of
                 Some v \<Rightarrow> Some v
               | None \<Rightarrow> [''kind'' \<mapsto> Scheme u, ''version'' \<mapsto> Version si] k)))"
proof (intro impI, elim conjE)
  assume run: "Register (spy r) si (s, []) = (res, (s', calls))" and n: "n < length calls"
  from n run have "Register_loop (spy r) si (Endpoints si) (s, []) = (res, (s', calls))"
    by (auto simp: Register_def split: if_splits)
  from Register_loop_calls [OF this]
  have all: "list_all2 (registration_of (opts r) si) (take (length calls) (Endpoints si)) calls"
    and len: "length calls \<le> length (Endpoints si)"
    by auto
  from all n have "registration_of (opts r) si (take (length calls) (Endpoints si) ! n) (calls ! n)"
    by (rule list_all2_nthD2)
  with n have "registration_of (opts r) si (Endpoints si ! n) (calls ! n)"
    by simp
  then obtain u host port p where u: "url_Parse (Endpoints si ! n) = Inr u"
    and c: "calls ! n = RegisterInstance_call
                \<lparr>RegisterInstanceParam.Ip = host,
                 RegisterInstanceParam.Port = word_of_int p,
                 RegisterInstanceParam.Weight = weight (opts r),
                 RegisterInstanceParam.Enable = True,
                 RegisterInstanceParam.Healthy = True,
                 RegisterInstanceParam.Metadata =
                   [''kind'' \<mapsto> Scheme u, ''version'' \<mapsto> Version si]
                     ++ ServiceInstance.Metadata si,
                 RegisterInstanceParam.ClusterName = cluster (opts r),
                 RegisterInstanceParam.ServiceName = Name si @ ''.'' @ Scheme u,
                 RegisterInstanceParam.GroupName = group (opts r),
                 RegisterInstanceParam.Ephemeral = True\<rparr>"
    by (auto simp: registration_of_iff)
  show "\<exists>u p. url_Parse (Endpoints si ! n) = Inr u \<and> calls ! n = RegisterInstance_call p
        \<and> (\<forall>k. RegisterInstanceParam.Metadata p k =
              (case ServiceInstance.Metadata si k of
                 Some v \<Rightarrow> Some v
               | None \<Rightarrow> [''kind'' \<mapsto> Scheme u, ''version'' \<mapsto> Version si] k))"
    by (intro exI conjI, rule u, rule c) (simp add: map_add_def split: option.splits)
qed

theorem Register_metadata_witness:
  "Register (spy (New memory_client [])) tagged ([], [])
     = (None, ([tagged_param], [RegisterInstance_call tagged_param]))
   \<and> (0::nat) < length [RegisterInstance_call tagged_param]
   \<and> ServiceInstance.Metadata tagged ''kind'' = Some ''http''
   \<and> (\<exists>u p. url_Parse (Endpoints tagged ! 0) = Inr u \<and> Scheme u = ''grpc''
         \<and> [RegisterInstance_call tagged_param] ! 0 = RegisterInstance_call p
         \<and> RegisterInstanceParam.Metadata p ''kind'' = Some ''http''
         \<and> RegisterInstanceParam.Metadata p ''version'' = Some ''v1''
         \<and> RegisterInstanceParam.Metadata p ''zone'' = Some ''a'')"
  using Register_metadata [where si = tagged and r = "New memory_client []" and s = "[]"
      and res = None and s' = "[tagged_param]" and n = 0
      and calls = "[RegisterInstance_call tagged_param]"]
    Register_tagged
  by (auto simp add: tagged_def tagged_param_def parse_svc)

subsection \<open>GetService\<close>

lemma GetService_spy:
  "GetService (spy r) serviceName (s, tr) =
     (case SelectInstances (cli r)
             \<lparr>Clusters = [], ServiceName = serviceName, GroupName = group (opts r),
              HealthyOnly = True\<rparr> s of
        (Inl err, t) \<Rightarrow>
          (Inl (ClientError err),
           (t, tr @ [SelectInstances_call
                   \<lparr>Clusters = [], ServiceName = serviceName, GroupName = group (opts r),
                    HealthyOnly = True\<rparr>]))
      | (Inr insts, t) \<Rightarrow>
          (Inr (map (reconstruct (opts r)) insts),
           (t, tr @ [SelectInstances_call
                   \<lparr>Clusters = [], ServiceName = serviceName, GroupName = group (opts r),
                    HealthyOnly = True\<rparr>])))"
  by (simp add: GetService_def recording_def Let_def reconstruct_def
        split: prod.splits sum.splits cong: option.case_cong)

lemma FormatUint_1_2: "FormatUint 1 = ''1''" "FormatUint 2 = ''2''"
  by code_simp+

lemma select_memory:
  "SelectInstances memory_client
     \<lparr>Clusters = [], ServiceName = ''svc.grpc'', GroupName = DEFAULT_GROUP, HealthyOnly = True\<rparr>
     [tagged_param, untagged_param]
   = (Inr [instance_of tagged_param, instance_of untagged_param], [tagged_param, untagged_param])"
  by (simp add: memory_client_def selected_def tagged_param_def untagged_param_def
        registration_def)

lemma GetService_memory:
  "GetService (spy (New memory_client [])) ''svc.grpc'' ([tagged_param, untagged_param], [])
     = (Inr discovered,
        ([tagged_param, untagged_param],
         [SelectInstances_call
            \<lparr>Clusters = [], ServiceName = ''svc.grpc'', GroupName = DEFAULT_GROUP,
             HealthyOnly = True\<rparr>]))"
  apply (simp add: GetService_spy New_default select_memory)
  apply (simp add: reconstruct_def discovered_def instance_of_def tagged_param_def
        untagged_param_def registration_def FormatUint_1_2 DEFAULT_GROUP_def)
  done

text \<open>
  C3. GetService makes one query on the client, for the service name it was given under
  the configured group with HealthyOnly true. For the records the client returns it
  returns as many service instances, in order: the instance of a record has the single
  endpoint kind://ip:port, with the record's metadata value for kind when that key is
  present and the configured default kind otherwise, the metadata value for version as
  Version (empty when absent), and the record's service name and instance id as Name and
  ID.
\<close>

theorem GetService_instances:
  "GetService (spy r) serviceName (s, []) = (res, (s', calls)) \<longrightarrow>
     calls = [SelectInstances_call
                \<lparr>Clusters = [], ServiceName = serviceName, GroupName = group (opts r),
                 HealthyOnly = True\<rparr>]
     \<and> (\<forall>insts. fst (SelectInstances (cli r)
                        \<lparr>Clusters = [], ServiceName = serviceName, GroupName = group (opts r),
                         HealthyOnly = True\<rparr> s) = Inr insts \<longrightarrow>
          (\<exists>items. res = Inr items \<and> length items = length insts
             \<and> (\<forall>n < length insts.
                  Endpoints (items ! n) =
                    [(case Instance.Metadata (insts ! n) ''kind'' of
                        Some k \<Rightarrow> k | None \<Rightarrow> kind (opts r))
                     @ ''://'' @ Instance.Ip (insts ! n) @ '':''
                     @ FormatUint (uint (Instance.Port (insts ! n)))]
                  \<and> Version (items ! n) =
                      (case Instance.Metadata (insts ! n) ''version'' of
                         Some v \<Rightarrow> v | None \<Rightarrow> [])
                  \<and> Name (items ! n) = Instance.ServiceName (insts ! n)
                  \<and> ID (items ! n) = InstanceId (insts ! n))))"
proof (cases "SelectInstances (cli r)
                \<lparr>Clusters = [], ServiceName = serviceName, GroupName = group (opts r),
                 HealthyOnly = True\<rparr> s")
  case (Pair a t)
  show ?thesis
  proof (cases a)
    case (Inl err)
    with Pair show ?thesis by (auto simp: GetService_spy)
  next
    case (Inr insts)
    with Pair show ?thesis by (auto simp: GetService_spy reconstruct_def)
  qed
qed

theorem GetService_instances_witness:
  "GetService (spy (New memory_client [])) ''svc.grpc'' ([tagged_param, untagged_param], [])
     = (Inr discovered,
        ([tagged_param, untagged_param],
         [SelectInstances_call
            \<lparr>Clusters = [], ServiceName = ''svc.grpc'', GroupName = DEFAULT_GROUP,
             HealthyOnly = True\<rparr>]))
   \<and> fst (SelectInstances (cli (New memory_client []))
            \<lparr>Clusters = [], ServiceName = ''svc.grpc'',
             GroupName = group (opts (New memory_client [])), HealthyOnly = True\<rparr>
            [tagged_param, untagged_param])
       = Inr [instance_of tagged_param, instance_of untagged_param]
   \<and> (1::nat) < length [instance_of tagged_param, instance_of untagged_param]
   \<and> Instance.Metadata (instance_of untagged_param) ''kind'' = None
   \<and> Endpoints (discovered ! 1) = [''grpc://h:2'']
   \<and> Endpoints (discovered ! 0) = [''http://h:1'']"
  using GetService_instances [where r = "New memory_client []" and serviceName = "''svc.grpc''"
      and s = "[tagged_param, untagged_param]" and res = "Inr discovered"
      and s' = "[tagged_param, untagged_param]"
      and calls = "[SelectInstances_call
            \<lparr>Clusters = [], ServiceName = ''svc.grpc'', GroupName = DEFAULT_GROUP,
             HealthyOnly = True\<rparr>]"]
    GetService_memory select_memory
  by (simp add: New_default discovered_def instance_of_def untagged_param_def)

subsection \<open>Facts about the library functions\<close>

lemma LastIndexByte_Some_iff:
  "LastIndexByte s c = Some i \<longleftrightarrow> (\<exists>xs ys. s = xs @ c # ys \<and> c \<notin> set ys \<and> i = length xs)"
proof
  assume a: "LastIndexByte s c = Some i"
  then have "c \<in> set s" by (simp add: LastIndexByte_def split: if_splits)
  then obtain xs ys where s: "s = xs @ c # ys" "c \<notin> set ys"
    by (blast dest: split_list_last)
  then have "takeWhile (\<lambda>x. x \<noteq> c) (rev s) = rev ys"
    by (auto simp add: takeWhile_tail)
  with a s have "i = length xs" by (simp add: LastIndexByte_def)
  with s show "\<exists>xs ys. s = xs @ c # ys \<and> c \<notin> set ys \<and> i = length xs" by blast
next
  assume "\<exists>xs ys. s = xs @ c # ys \<and> c \<notin> set ys \<and> i = length xs"
  then obtain xs ys where s: "s = xs @ c # ys" "c \<notin> set ys" "i = length xs" by blast
  then have "takeWhile (\<lambda>x. x \<noteq> c) (rev s) = rev ys"
    by (auto simp add: takeWhile_tail)
  with s show "LastIndexByte s c = Some i" by (simp add: LastIndexByte_def)
qed

lemma LastIndexByte_None_iff: "LastIndexByte s c = None \<longleftrightarrow> c \<notin> set s"
  by (simp add: LastIndexByte_def)

lemma IndexByte_Some_iff:
  "IndexByte s c = Some i \<longleftrightarrow> (\<exists>xs ys. s = xs @ c # ys \<and> c \<notin> set xs \<and> i = length xs)"
proof
  assume a: "IndexByte s c = Some i"
  then have "c \<in> set s" by (simp add: IndexByte_def split: if_splits)
  then obtain xs ys where s: "s = xs @ c # ys" "c \<notin> set xs"
    by (blast dest: split_list_first)
  then have "takeWhile (\<lambda>x. x \<noteq> c) s = xs"
    by (auto simp add: takeWhile_tail)
  with a s have "i = length xs" by (simp add: IndexByte_def)
  with s show "\<exists>xs ys. s = xs @ c # ys \<and> c \<notin> set xs \<and> i = length xs" by blast
next
  assume "\<exists>xs ys. s = xs @ c # ys \<and> c \<notin> set xs \<and> i = length xs"
  then obtain xs ys where s: "s = xs @ c # ys" "c \<notin> set xs" "i = length xs" by blast
  then have "takeWhile (\<lambda>x. x \<noteq> c) s = xs"
    by (auto simp add: takeWhile_tail)
  with s show "IndexByte s c = Some i" by (simp add: IndexByte_def)
qed

lemma plain_not_percent: "\<not> shouldEscape_host c \<Longrightarrow> c \<noteq> CHR ''%''"
  by (auto simp: shouldEscape_host_def is_lower_def is_upper_def is_digit_def)

lemma digit_plain: "is_digit c \<Longrightarrow> \<not> shouldEscape_host c"
  by (simp add: shouldEscape_host_def)

lemma colon_bracket_plain:
  "\<not> shouldEscape_host CHR '':''" "\<not> shouldEscape_host CHR '']''"
  by (simp_all add: shouldEscape_host_def)

lemma unescape_plain: "list_all (\<lambda>c. \<not> shouldEscape_host c) s \<Longrightarrow> unescape mode s = Inr s"
  by (induction s) (auto dest: plain_not_percent)

lemma ishex_colon_bracket: "\<not> ishex CHR '':''" "\<not> ishex CHR '']''"
  by (simp_all add: ishex_def is_digit_def)

lemma unescape_append:
  "unescape mode (xs @ c # ys) = Inr t \<Longrightarrow> c \<noteq> CHR ''%'' \<Longrightarrow> \<not> ishex c \<Longrightarrow>
   \<exists>t1 t2. unescape mode xs = Inr t1 \<and> unescape mode (c # ys) = Inr t2 \<and> t = t1 @ t2"
proof (induction mode xs arbitrary: t rule: unescape.induct)
  case (1 mode)
  then show ?case by simp
next
  case (2 mode x s)
  show ?case
  proof (cases "x = CHR ''%''")
    case True
    show ?thesis
    proof (cases s)
      case Nil
      with True 2 show ?thesis by (auto split: list.splits)
    next
      case (Cons a s')
      show ?thesis
      proof (cases s')
        case Nil
        with True Cons 2 show ?thesis by (auto split: list.splits)
      next
        case (Cons b rest)
        note s = \<open>s = a # s'\<close> \<open>s' = b # rest\<close>
        from "2.prems"(1) True s
        have hex: "ishex a" "ishex b"
          and h1: "\<not> (mode = encodeHost \<and> unhex a < 8 \<and> [a, b] \<noteq> ''25'')"
          and h2: "\<not> (mode = encodeZone \<and> [a, b] \<noteq> ''25''
                     \<and> char_of (unhex a * 16 + unhex b) \<noteq> CHR '' ''
                     \<and> shouldEscape_host (char_of (unhex a * 16 + unhex b)))"
          by (auto split: if_splits)
        from "2.prems"(1) True s hex h1 h2 obtain t' where
          t': "unescape mode (rest @ c # ys) = Inr t'"
              "t = char_of (unhex a * 16 + unhex b) # t'"
          by (auto split: if_splits sum.splits)
        from "2.IH"(1) [OF True s(1) s(2) _ _ _ t'(1) "2.prems"(2,3)] hex h1 h2
        obtain t1 t2 where "unescape mode rest = Inr t1" "unescape mode (c # ys) = Inr t2"
          "t' = t1 @ t2"
          by auto
        with True s hex h1 h2 t' show ?thesis
          by (auto split: if_splits)
      qed
    qed
  next
    case False
    from "2.prems"(1) False
    have ok: "\<not> ((mode = encodeHost \<or> mode = encodeZone) \<and> x < CHR 0x80 \<and> shouldEscape_host x)"
      by (auto split: if_splits)
    from "2.prems"(1) False ok obtain t' where
      t': "unescape mode (s @ c # ys) = Inr t'" "t = x # t'"
      by (auto split: if_splits sum.splits)
    from "2.IH"(2) [OF False ok t'(1) "2.prems"(2,3)]
    obtain t1 t2 where "unescape mode s = Inr t1" "unescape mode (c # ys) = Inr t2"
      "t' = t1 @ t2"
      by auto
    with False ok t' show ?thesis by (auto split: if_splits)
  qed
qed

lemma char_le_int: "c \<le> d \<longleftrightarrow> (of_char c :: int) \<le> of_char d"
proof -
  have "(of_char c :: int) = int (of_char c)" "(of_char d :: int) = int (of_char d)"
    by (simp_all add: of_nat_of_char)
  then show ?thesis by (simp add: less_eq_char_def)
qed

lemma char_eq_int: "c = d \<longleftrightarrow> (of_char c :: int) = of_char d"
  by simp

lemma unhex_range: "0 \<le> unhex c \<and> unhex c \<le> 15"
  by (auto simp: unhex_def is_digit_def char_le_int)

lemma decoded_byte:
  "of_char (char_of (unhex a * 16 + unhex b)) = unhex a * 16 + unhex b"
proof -
  have "0 \<le> unhex a * 16 + unhex b" "unhex a * 16 + unhex b < 256"
    using unhex_range [of a] unhex_range [of b] by auto
  then show ?thesis by simp
qed

lemma unescape_host_no_colon:
  "unescape encodeHost s = Inr t \<Longrightarrow> CHR '':'' \<notin> set s \<Longrightarrow> CHR '':'' \<notin> set t"
proof (induction encodeHost s arbitrary: t rule: unescape.induct)
  case 1
  then show ?case by simp
next
  case (2 x s)
  show ?case
  proof (cases "x = CHR ''%''")
    case True
    show ?thesis
    proof (cases s)
      case Nil
      with True 2 show ?thesis by simp
    next
      case (Cons a s')
      show ?thesis
      proof (cases s')
        case Nil
        with True Cons 2 show ?thesis by simp
      next
        case (Cons b rest)
        note s = \<open>s = a # s'\<close> \<open>s' = b # rest\<close>
        from "2.prems"(1) True s
        have hex: "ishex a" "ishex b"
          and h1: "\<not> (unhex a < 8 \<and> [a, b] \<noteq> ''25'')"
          by (auto split: if_splits)
        from "2.prems"(1) True s hex h1 obtain t' where
          t': "unescape encodeHost rest = Inr t'"
              "t = char_of (unhex a * 16 + unhex b) # t'"
          by (auto split: if_splits sum.splits)
        have "CHR '':'' \<notin> set t'"
          using "2.hyps"(1) [OF True s(1) s(2) _ _ _ t'(1)] hex h1 "2.prems"(2) s
          by auto
        moreover have "char_of (unhex a * 16 + unhex b) \<noteq> CHR '':''"
        proof
          assume "char_of (unhex a * 16 + unhex b) = CHR '':''"
          then have "of_char (char_of (unhex a * 16 + unhex b) :: char) = (of_char CHR '':'' :: int)"
            by simp
          then have v: "unhex a * 16 + unhex b = 58"
            by (simp add: decoded_byte del: of_char_of)
          from h1 have "\<not> unhex a < 8 \<or> [a, b] = ''25''" by auto
          then show False
          proof (elim disjE)
            assume "\<not> unhex a < 8"
            with v unhex_range [of b] show False by auto
          next
            assume "[a, b] = ''25''"
            then have "a = CHR ''2''" "b = CHR ''5''" by auto
            with v show False by (simp add: unhex_def is_digit_def)
          qed
        qed
        ultimately show ?thesis using t' by simp
      qed
    qed
  next
    case False
    from "2.prems"(1) False
    have ok: "\<not> ((encodeHost = encodeHost \<or> encodeHost = encodeZone) \<and> x < CHR 0x80 \<and> shouldEscape_host x)"
      by (auto split: if_splits)
    from "2.prems"(1) False ok obtain t' where
      t': "unescape encodeHost s = Inr t'" "t = x # t'"
      by (auto split: if_splits sum.splits)
    from "2.hyps"(2) [OF False ok t'(1)] "2.prems"(2)
    have "CHR '':'' \<notin> set t'" by auto
    with t' "2.prems"(2) show ?thesis by auto
  qed
qed

lemma validOptionalPort_iff:
  "validOptionalPort p \<longleftrightarrow> p = [] \<or> (\<exists>ds. p = CHR '':'' # ds \<and> list_all is_digit ds)"
  by (cases p) (auto simp: validOptionalPort_def)

lemma unescape_port_tail:
  "list_all is_digit ds \<Longrightarrow> unescape mode (CHR '':'' # ds) = Inr (CHR '':'' # ds)"
  by (rule unescape_plain) (simp add: colon_bracket_plain list_all_iff digit_plain)

lemma unescape_bracket_tail:
  "validOptionalPort ys \<Longrightarrow> unescape mode (CHR '']'' # ys) = Inr (CHR '']'' # ys)"
  by (rule unescape_plain)
    (auto simp: validOptionalPort_iff colon_bracket_plain list_all_iff digit_plain)

lemma parseHost_shape:
  assumes "parseHost a = Inr hst"
  shows "CHR '':'' \<notin> set hst
    \<or> (\<exists>X ds. hst = X @ CHR '':'' # ds \<and> list_all is_digit ds)
    \<or> (hst \<noteq> [] \<and> last hst = CHR '']'')"
proof (cases "HasPrefix a ''[''")
  case True
  with assms obtain i where i: "LastIndexByte a CHR '']'' = Some i"
    by (auto simp: parseHost_def split: option.splits)
  then obtain xs ys where a: "a = xs @ CHR '']'' # ys" "CHR '']'' \<notin> set ys" "i = length xs"
    by (auto simp: LastIndexByte_Some_iff)
  from assms True i a have port: "validOptionalPort ys"
    by (auto simp: parseHost_def split: if_splits)
  have tail: "unescape encodeHost (CHR '']'' # ys) = Inr (CHR '']'' # ys)"
    using port by (rule unescape_bracket_tail)
  have "\<exists>Y. hst = Y @ CHR '']'' # ys"
  proof (cases "Index xs ''%25''")
    case None
    with assms True i a port have "unescape encodeHost (xs @ CHR '']'' # ys) = Inr hst"
      by (simp add: parseHost_def del: unescape.simps)
    from unescape_append [OF this] obtain t1 t2 where
      "unescape encodeHost (CHR '']'' # ys) = Inr t2" "hst = t1 @ t2"
      using ishex_colon_bracket by blast
    with tail show ?thesis by (simp only: sum.inject) blast
  next
    case (Some zone)
    with assms True i a port obtain host1 host2 host3 where
      "unescape encodeHost (CHR '']'' # ys) = Inr host3" "hst = host1 @ host2 @ host3"
      by (auto simp: parseHost_def simp del: unescape.simps split: sum.splits)
    with tail have "hst = (host1 @ host2) @ CHR '']'' # ys"
      by (simp only: sum.inject append_assoc)
    then show ?thesis by blast
  qed
  then obtain Y where hst: "hst = Y @ CHR '']'' # ys" by blast
  from port show ?thesis
  proof (cases ys)
    case Nil
    with hst show ?thesis by simp
  next
    case (Cons y ds)
    with port have "y = CHR '':''" "list_all is_digit ds"
      by (auto simp: validOptionalPort_iff)
    with hst Cons have "hst = (Y @ '']'') @ CHR '':'' # ds" by simp
    with \<open>list_all is_digit ds\<close> show ?thesis by blast
  qed
next
  case False
  show ?thesis
  proof (cases "LastIndexByte a CHR '':''")
    case None
    with assms False have "unescape encodeHost a = Inr hst" "CHR '':'' \<notin> set a"
      by (auto simp: parseHost_def LastIndexByte_None_iff)
    then show ?thesis by (auto dest: unescape_host_no_colon)
  next
    case (Some i)
    then obtain xs ys where a: "a = xs @ CHR '':'' # ys" "CHR '':'' \<notin> set ys" "i = length xs"
      by (auto simp: LastIndexByte_Some_iff)
    from assms False Some a have port: "validOptionalPort (CHR '':'' # ys)"
      and u: "unescape encodeHost (xs @ CHR '':'' # ys) = Inr hst"
      by (auto simp: parseHost_def simp del: unescape.simps split: if_splits)
    from port have ds: "list_all is_digit ys" by (simp add: validOptionalPort_iff)
    from unescape_append [OF u] obtain t1 t2 where
      "unescape encodeHost (CHR '':'' # ys) = Inr t2" "hst = t1 @ t2"
      using ishex_colon_bracket by blast
    with unescape_port_tail [OF ds, of encodeHost] have "hst = t1 @ CHR '':'' # ys"
      by (simp only: sum.inject)
    with ds show ?thesis by blast
  qed
qed

lemma parseAuthority_parseHost:
  "parseAuthority a = Inr hst \<Longrightarrow> \<exists>a'. parseHost a' = Inr hst"
  by (auto simp: parseAuthority_def Let_def split: option.splits sum.splits if_splits)

lemma parse_Host:
  "parse e = Inr u \<Longrightarrow> Host u = [] \<or> (\<exists>a. parseHost a = Inr (Host u))"
  by (auto simp: parse_def Let_def split: if_splits sum.splits prod.splits
        dest: parseAuthority_parseHost)

lemma url_Parse_Host:
  "url_Parse e = Inr u \<Longrightarrow> Host u = [] \<or> (\<exists>a. parseHost a = Inr (Host u))"
  by (auto simp: url_Parse_def Let_def split: if_splits sum.splits dest: parse_Host)

lemma SplitHostPort_port:
  assumes "net_SplitHostPort hp = Inr (h, port)"
  shows "\<exists>xs. hp = xs @ CHR '':'' # port \<and> CHR '':'' \<notin> set port \<and> CHR '']'' \<notin> set port"
proof -
  from assms obtain i where i: "LastIndexByte hp CHR '':'' = Some i"
    by (auto simp: net_SplitHostPort_def split: option.splits)
  then obtain xs ys where hp: "hp = xs @ CHR '':'' # ys" "CHR '':'' \<notin> set ys" "i = length xs"
    by (auto simp: LastIndexByte_Some_iff)
  have port: "port = ys"
    using assms i hp
    by (auto simp: net_SplitHostPort_def split: option.splits if_splits)
  have "CHR '']'' \<notin> set ys"
  proof (cases "take 1 hp = ''[''")
    case False
    with assms i hp show ?thesis
      by (auto simp: net_SplitHostPort_def split: option.splits if_splits)
  next
    case True
    with assms i obtain end' where e: "IndexByte hp CHR '']'' = Some end'"
      "end' + 1 = i" "CHR '']'' \<notin> set (drop (end' + 1) hp)"
      by (auto simp: net_SplitHostPort_def split: option.splits if_splits)
    with hp have "CHR '']'' \<notin> set (CHR '':'' # ys)" by simp
    then show ?thesis by simp
  qed
  with hp port show ?thesis by blast
qed

lemma port_digits:
  assumes "url_Parse e = Inr u" and "net_SplitHostPort (Host u) = Inr (h, port)"
  shows "list_all is_digit port"
proof -
  from SplitHostPort_port [OF assms(2)] obtain xs where
    hp: "Host u = xs @ CHR '':'' # port" "CHR '':'' \<notin> set port" "CHR '']'' \<notin> set port"
    by blast
  then have "Host u \<noteq> []" by simp
  with url_Parse_Host [OF assms(1)] obtain a where "parseHost a = Inr (Host u)" by blast
  from parseHost_shape [OF this]
  consider "CHR '':'' \<notin> set (Host u)"
    | X ds where "Host u = X @ CHR '':'' # ds" "list_all is_digit ds"
    | "last (Host u) = CHR '']''"
    by blast
  then show ?thesis
  proof cases
    case 1
    with hp show ?thesis by simp
  next
    case (2 X ds)
    have "CHR '':'' \<notin> set ds"
      using 2(2) by (auto simp: list_all_iff is_digit_def)
    with 2(1) hp have "xs @ CHR '':'' # port = X @ CHR '':'' # ds"
      "CHR '':'' \<notin> set port" "CHR '':'' \<notin> set ds"
      by simp_all
    then have "port = ds"
      by (auto simp: append_eq_append_conv2 append_eq_Cons_conv Cons_eq_append_conv)
    with 2(2) show ?thesis by simp
  next
    case 3
    show ?thesis
    proof (cases port)
      case Nil
      then show ?thesis by simp
    next
      case (Cons c cs)
      with hp(1) have "last (Host u) = last port" by simp
      with 3 Cons have "CHR '']'' \<in> set port"
        by (metis last_in_set list.distinct(1))
      with hp(3) show ?thesis by simp
    qed
  qed
qed

lemma digit_val_range: "is_digit c \<Longrightarrow> 0 \<le> digit_val c \<and> digit_val c \<le> 9"
  by (auto simp: is_digit_def digit_val_def char_le_int)

lemma ParseUint_loop_foldl:
  "ParseUint_loop n cs = Inr m \<Longrightarrow> m = foldl (\<lambda>n c. n * 10 + digit_val c) n cs"
  by (induction n cs rule: ParseUint_loop.induct) (auto split: if_splits)

lemma foldl_digits_nonneg:
  "list_all is_digit cs \<Longrightarrow> 0 \<le> n \<Longrightarrow> 0 \<le> foldl (\<lambda>n c. n * 10 + digit_val c) n cs"
proof (induction cs arbitrary: n)
  case Nil
  then show ?case by simp
next
  case (Cons c cs)
  then have "0 \<le> n * 10 + digit_val c" using digit_val_range [of c] by simp
  with Cons show ?case by simp
qed

lemma digit_not_sign: "is_digit c \<Longrightarrow> c \<noteq> CHR ''+'' \<and> c \<noteq> CHR ''-''"
  by (auto simp: is_digit_def)

lemma Atoi_digits:
  assumes "list_all is_digit port" and "strconv_Atoi port = Inr p"
  shows "port \<noteq> [] \<and> p = decimal port \<and> 0 \<le> p \<and> p < 2 ^ 63"
proof -
  from assms(1) have sign: "take 1 port \<noteq> ''+''" "take 1 port \<noteq> ''-''"
    by (cases port; auto dest: digit_not_sign)+
  with assms(2) have ne: "port \<noteq> []" and "\<exists>un. ParseUint_loop 0 port = Inr un \<and> un < 2 ^ 63 \<and> p = un"
    by (auto simp: strconv_Atoi_def Let_def split: if_splits sum.splits)
  then obtain un where un: "ParseUint_loop 0 port = Inr un" "un < 2 ^ 63" "p = un" by blast
  from ParseUint_loop_foldl [OF un(1)] have "un = decimal port" by (simp add: decimal_def)
  moreover from foldl_digits_nonneg [OF assms(1), of 0] have "0 \<le> decimal port"
    by (simp add: decimal_def)
  ultimately show ?thesis using ne un by simp
qed

lemma url_Parse_error: "url_Parse e = Inl err \<Longrightarrow> \<exists>url reason. err = url_Error ''parse'' url reason"
  by (auto simp: url_Parse_def Let_def split: sum.splits if_splits)

lemma SplitHostPort_error: "net_SplitHostPort hp = Inl err \<Longrightarrow> \<exists>why. err = AddrError why hp"
  by (auto simp: net_SplitHostPort_def split: option.splits if_splits)

lemma Atoi_error: "strconv_Atoi s = Inl err \<Longrightarrow> \<exists>why. err = NumError ''Atoi'' s why"
  by (auto simp: strconv_Atoi_def Let_def split: sum.splits if_splits)

lemma parse_hostonly:
  "url_Parse ''grpc://hostonly'' = Inr \<lparr>Scheme = ''grpc'', Host = ''hostonly''\<rparr>"
  "net_SplitHostPort ''hostonly'' = Inl (AddrError ''missing port in address'' ''hostonly'')"
  by code_simp+

lemma parse_broken:
  "url_Parse ''grpc://h:x'' = Inl (url_Error ''parse'' ''grpc://h:x'' (invalid_port_after_host '':x''))"
  "url_Parse ''grpc://h:'' = Inr \<lparr>Scheme = ''grpc'', Host = ''h:''\<rparr>"
  "net_SplitHostPort ''h:'' = Inr (''h'', [])"
  "strconv_Atoi [] = Inl (NumError ''Atoi'' [] ErrSyntax)"
  by code_simp+

lemma decimal_1: "decimal ''1'' = 1"
  by (simp add: decimal_def digit_val_def)

subsection \<open>Register: validation of the endpoints\<close>

lemma registered_port:
  assumes "registration_of op si e (RegisterInstance_call prm)"
  shows "\<exists>u host port. url_Parse e = Inr u \<and> net_SplitHostPort (Host u) = Inr (host, port)
           \<and> port \<noteq> [] \<and> list_all is_digit port
           \<and> uint (RegisterInstanceParam.Port prm) = decimal port"
proof -
  from assms obtain u host port p where
    v: "url_Parse e = Inr u" "net_SplitHostPort (Host u) = Inr (host, port)"
       "strconv_Atoi port = Inr p"
    and prm: "RegisterInstanceParam.Port prm = word_of_int p"
    by (auto simp: registration_of_iff)
  from port_digits [OF v(1,2)] have ds: "list_all is_digit port" .
  from Atoi_digits [OF ds v(3)] have p: "port \<noteq> []" "p = decimal port" "0 \<le> p" "p < 2 ^ 63"
    by simp_all
  then have "p < 2 ^ 64" by simp
  with p have "uint (word_of_int p :: 64 word) = p"
    by (simp add: uint_word_of_int take_bit_int_eq_self)
  with v ds p prm show ?thesis by auto
qed

lemma Register_abort:
  assumes name: "Name si \<noteq> []" and es: "Endpoints si = pre @ e # post"
    and pre: "Register (spy r) (si\<lparr>Endpoints := pre\<rparr>) (s, []) = (None, st)"
    and bad: "url_Parse e = Inl err
       \<or> (\<exists>u. url_Parse e = Inr u \<and> net_SplitHostPort (Host u) = Inl err)
       \<or> (\<exists>u host port. url_Parse e = Inr u \<and> net_SplitHostPort (Host u) = Inr (host, port)
             \<and> strconv_Atoi port = Inl err)"
  shows "Register (spy r) si (s, []) = (Some err, st)"
proof -
  from pre name have loop: "Register_loop (spy r) si pre (s, []) = (None, st)"
    by (simp add: Register_def Register_loop_Endpoints)
  from bad have "Register_loop (spy r) si (e # post) st = (Some err, st)"
    by auto
  with name es loop show ?thesis
    by (simp add: Register_def Register_loop_append)
qed

lemma Register_call_at:
  assumes "Register (spy r) si (s, []) = (res, (s', calls))" and n: "n < length calls"
  shows "registration_of (opts r) si (Endpoints si ! n) (calls ! n)"
proof -
  from assms have "Register_loop (spy r) si (Endpoints si) (s, []) = (res, (s', calls))"
    by (auto simp: Register_def split: if_splits)
  from Register_loop_calls [OF this]
  have all: "list_all2 (registration_of (opts r) si) (take (length calls) (Endpoints si)) calls"
    by auto
  from all n
  have "registration_of (opts r) si (take (length calls) (Endpoints si) ! n) (calls ! n)"
    by (rule list_all2_nthD2)
  with n show ?thesis by simp
qed

lemma Register_broken_pre:
  "Register (spy (New memory_client [])) ((broken e)\<lparr>Endpoints := [''grpc://h:1'']\<rparr>) ([], [])
     = (None, ([registration ''grpc'' ''svc.grpc'' 1],
               [RegisterInstance_call (registration ''grpc'' ''svc.grpc'' 1)]))"
  by (simp add: Register_def broken_def registration_def parse_svc New_default
        Let_def recording_RegisterInstance memory_client_def)

text \<open>
  C5. Register validates every endpoint it reaches, in three steps, and a failure of any
  step ends the whole call with that step's error and without a call on the client for
  that endpoint (client state and log are as the endpoints before left them): the endpoint
  must parse as a URL, otherwise the error is a parse error of net/url; the host of the
  URL must split into host and port, otherwise the error is an address error for that
  host; the port must convert with Atoi, otherwise the error is a number error for that
  port. Register on the one endpoint grpc://hostonly fails with the address error
  "missing port in address" and makes no call. In every registration call made, the
  port text of the endpoint is a non-empty string of decimal digits and the Port
  registered is the unsigned number it denotes.
\<close>

theorem Register_validation:
  "(Name si \<noteq> [] \<and> Endpoints si = pre @ e # post
     \<and> Register (spy r) (si\<lparr>Endpoints := pre\<rparr>) (s, []) = (None, st) \<longrightarrow>
      (\<forall>err. url_Parse e = Inl err \<longrightarrow>
          Register (spy r) si (s, []) = (Some err, st)
          \<and> (\<exists>url reason. err = url_Error ''parse'' url reason))
      \<and> (\<forall>u err. url_Parse e = Inr u \<and> net_SplitHostPort (Host u) = Inl err \<longrightarrow>
          Register (spy r) si (s, []) = (Some err, st)
          \<and> (\<exists>why. err = AddrError why (Host u)))
      \<and> (\<forall>u host port err.
            url_Parse e = Inr u \<and> net_SplitHostPort (Host u) = Inr (host, port)
            \<and> strconv_Atoi port = Inl err \<longrightarrow>
          Register (spy r) si (s, []) = (Some err, st)
          \<and> (\<exists>why. err = NumError ''Atoi'' port why)))
   \<and> Register (spy r) (si\<lparr>Name := c # cs, Endpoints := [''grpc://hostonly'']\<rparr>) (s, [])
       = (Some (AddrError ''missing port in address'' ''hostonly''), (s, []))
   \<and> (Register (spy r) si (s, []) = (res, (s', calls)) \<and> n < length calls \<longrightarrow>
        (\<exists>u host port prm.
           url_Parse (Endpoints si ! n) = Inr u
           \<and> net_SplitHostPort (Host u) = Inr (host, port)
           \<and> calls ! n = RegisterInstance_call prm
           \<and> port \<noteq> [] \<and> list_all is_digit port
           \<and> uint (RegisterInstanceParam.Port prm) = decimal port))"
proof (intro conjI impI allI)
  show "Register (spy r) (si\<lparr>Name := c # cs, Endpoints := [''grpc://hostonly'']\<rparr>) (s, [])
       = (Some (AddrError ''missing port in address'' ''hostonly''), (s, []))"
    by (simp add: Register_def parse_hostonly)
next
  assume run: "Register (spy r) si (s, []) = (res, (s', calls)) \<and> n < length calls"
  then have reg: "registration_of (opts r) si (Endpoints si ! n) (calls ! n)"
    by (auto intro: Register_call_at)
  then obtain prm where prm: "calls ! n = RegisterInstance_call prm"
    by (auto simp: registration_of_iff)
  with reg registered_port [of "opts r" si "Endpoints si ! n" prm]
  show "\<exists>u host port prm.
           url_Parse (Endpoints si ! n) = Inr u
           \<and> net_SplitHostPort (Host u) = Inr (host, port)
           \<and> calls ! n = RegisterInstance_call prm
           \<and> port \<noteq> [] \<and> list_all is_digit port
           \<and> uint (RegisterInstanceParam.Port prm) = decimal port"
    by auto
next
  fix err
  assume a: "Name si \<noteq> [] \<and> Endpoints si = pre @ e # post
     \<and> Register (spy r) (si\<lparr>Endpoints := pre\<rparr>) (s, []) = (None, st)"
    and b: "url_Parse e = Inl err"
  from a b show "Register (spy r) si (s, []) = (Some err, st)"
    by (intro Register_abort [where pre = pre and e = e and post = post]) auto
  from b show "\<exists>url reason. err = url_Error ''parse'' url reason"
    by (rule url_Parse_error)
next
  fix u err
  assume a: "Name si \<noteq> [] \<and> Endpoints si = pre @ e # post
     \<and> Register (spy r) (si\<lparr>Endpoints := pre\<rparr>) (s, []) = (None, st)"
    and b: "url_Parse e = Inr u \<and> net_SplitHostPort (Host u) = Inl err"
  from a b show "Register (spy r) si (s, []) = (Some err, st)"
    by (intro Register_abort [where pre = pre and e = e and post = post]) auto
  from b show "\<exists>why. err = AddrError why (Host u)"
    by (auto dest: SplitHostPort_error)
next
  fix u host port err
  assume a: "Name si \<noteq> [] \<and> Endpoints si = pre @ e # post
     \<and> Register (spy r) (si\<lparr>Endpoints := pre\<rparr>) (s, []) = (None, st)"
    and b: "url_Parse e = Inr u \<and> net_SplitHostPort (Host u) = Inr (host, port)
            \<and> strconv_Atoi port = Inl err"
  from a b show "Register (spy r) si (s, []) = (Some err, st)"
    by (intro Register_abort [where pre = pre and e = e and post = post]) auto
  from b show "\<exists>why. err = NumError ''Atoi'' port why"
    by (auto dest: Atoi_error)
qed

theorem Register_validation_witness:
  "Name (broken ''grpc://hostonly'') \<noteq> []
   \<and> Endpoints (broken ''grpc://hostonly'')
       = [''grpc://h:1''] @ ''grpc://hostonly'' # [''http://h:2'']
   \<and> Register (spy (New memory_client []))
        ((broken ''grpc://hostonly'')\<lparr>Endpoints := [''grpc://h:1'']\<rparr>) ([], [])
       = (None, ([registration ''grpc'' ''svc.grpc'' 1],
                 [RegisterInstance_call (registration ''grpc'' ''svc.grpc'' 1)]))
   \<and> Register (spy (New memory_client [])) (broken ''grpc://h:x'') ([], [])
       = (Some (url_Error ''parse'' ''grpc://h:x'' (invalid_port_after_host '':x'')),
          ([registration ''grpc'' ''svc.grpc'' 1],
           [RegisterInstance_call (registration ''grpc'' ''svc.grpc'' 1)]))
   \<and> Register (spy (New memory_client [])) (broken ''grpc://hostonly'') ([], [])
       = (Some (AddrError ''missing port in address'' ''hostonly''),
          ([registration ''grpc'' ''svc.grpc'' 1],
           [RegisterInstance_call (registration ''grpc'' ''svc.grpc'' 1)]))
   \<and> Register (spy (New memory_client [])) (broken ''grpc://h:'') ([], [])
       = (Some (NumError ''Atoi'' [] ErrSyntax),
          ([registration ''grpc'' ''svc.grpc'' 1],
           [RegisterInstance_call (registration ''grpc'' ''svc.grpc'' 1)]))
   \<and> (0::nat) < length [RegisterInstance_call (registration ''grpc'' ''svc.grpc'' 1)]
   \<and> uint (RegisterInstanceParam.Port (registration ''grpc'' ''svc.grpc'' 1)) = decimal ''1''"
  using Register_validation [where si = "broken ''grpc://h:x''" and r = "New memory_client []"
      and pre = "[''grpc://h:1'']" and e = "''grpc://h:x''" and post = "[''http://h:2'']"
      and s = "[]"
      and st = "([registration ''grpc'' ''svc.grpc'' 1],
                 [RegisterInstance_call (registration ''grpc'' ''svc.grpc'' 1)])",
      THEN conjunct1]
    Register_validation [where si = "broken ''grpc://hostonly''" and r = "New memory_client []"
      and pre = "[''grpc://h:1'']" and e = "''grpc://hostonly''" and post = "[''http://h:2'']"
      and s = "[]"
      and st = "([registration ''grpc'' ''svc.grpc'' 1],
                 [RegisterInstance_call (registration ''grpc'' ''svc.grpc'' 1)])",
      THEN conjunct1]
    Register_validation [where si = "broken ''grpc://h:''" and r = "New memory_client []"
      and pre = "[''grpc://h:1'']" and e = "''grpc://h:''" and post = "[''http://h:2'']"
      and s = "[]"
      and st = "([registration ''grpc'' ''svc.grpc'' 1],
                 [RegisterInstance_call (registration ''grpc'' ''svc.grpc'' 1)])",
      THEN conjunct1]
    Register_broken_pre
  by (simp add: broken_def parse_broken parse_hostonly decimal_1 registration_def)

subsection \<open>Plain endpoints through the library functions\<close>

lemma digit_char:
  assumes "0 \<le> d" "d < 10"
  shows "is_digit (char_of (48 + d))"
    and "digit_val (char_of (48 + d)) = d"
proof -
  have v: "of_char (char_of (48 + d) :: char) = 48 + d"
    using assms by simp
  show "is_digit (char_of (48 + d))"
    using assms by (simp add: is_digit_def char_le_int v del: of_char_of)
  show "digit_val (char_of (48 + d)) = d"
    by (simp add: digit_val_def v del: of_char_of)
qed

lemma FormatUint_digits: "0 \<le> n \<Longrightarrow> list_all is_digit (FormatUint n) \<and> FormatUint n \<noteq> []"
proof (induction n rule: FormatUint.induct)
  case (1 n)
  show ?case
  proof (cases "n < 10")
    case True
    with 1 show ?thesis by (simp add: FormatUint.simps [of n] digit_char del: of_char_of)
  next
    case False
    with 1 have "list_all is_digit (FormatUint (n div 10))" by simp
    moreover have "is_digit (char_of (48 + n mod 10))"
      by (rule digit_char) simp_all
    ultimately show ?thesis using False by (simp add: FormatUint.simps [of n] del: of_char_of)
  qed
qed

lemma ParseUint_loop_snoc:
  "ParseUint_loop a (xs @ [c]) =
     (case ParseUint_loop a xs of
        Inl e \<Rightarrow> Inl e
      | Inr m \<Rightarrow> if \<not> is_digit c then Inl ErrSyntax
                else if 2 ^ 64 \<le> m * 10 + digit_val c then Inl ErrRange
                else Inr (m * 10 + digit_val c))"
  by (induction a xs rule: ParseUint_loop.induct) simp_all

lemma ParseUint_loop_FormatUint:
  "0 \<le> n \<Longrightarrow> n < 2 ^ 64 \<Longrightarrow> ParseUint_loop 0 (FormatUint n) = Inr n"
proof (induction n rule: FormatUint.induct)
  case (1 n)
  show ?case
  proof (cases "n < 10")
    case True
    with 1 show ?thesis
      by (simp add: FormatUint.simps [of n] digit_char del: of_char_of)
  next
    case False
    with 1 have IH: "ParseUint_loop 0 (FormatUint (n div 10)) = Inr (n div 10)" by simp
    have d: "is_digit (char_of (48 + n mod 10))"
      "digit_val (char_of (48 + n mod 10)) = n mod 10"
      by (rule digit_char; simp)+
    have "n div 10 * 10 + n mod 10 = n" by simp
    with False 1 IH d show ?thesis
      by (simp add: FormatUint.simps [of n] ParseUint_loop_snoc del: of_char_of)
  qed
qed

lemma Atoi_FormatUint:
  assumes "0 \<le> n" "n < 2 ^ 63"
  shows "strconv_Atoi (FormatUint n) = Inr n"
proof -
  from FormatUint_digits [OF assms(1)]
  have ds: "list_all is_digit (FormatUint n)" and ne: "FormatUint n \<noteq> []" by simp_all
  from ds have sign: "take 1 (FormatUint n) \<noteq> ''+''" "take 1 (FormatUint n) \<noteq> ''-''"
    by (cases "FormatUint n"; auto dest: digit_not_sign)+
  from assms have "ParseUint_loop 0 (FormatUint n) = Inr n"
    by (intro ParseUint_loop_FormatUint) simp_all
  with sign ne assms show ?thesis by (simp add: strconv_Atoi_def)
qed

lemma SplitHostPort_plain:
  assumes "list_all host_byte h" "list_all is_digit ds"
  shows "net_SplitHostPort (h @ CHR '':'' # ds) = Inr (h, ds)"
proof -
  have h: "CHR '':'' \<notin> set h" "CHR ''['' \<notin> set h" "CHR '']'' \<notin> set h"
    using assms(1) by (auto simp: list_all_iff host_byte_def is_lower_def is_upper_def is_digit_def)
  have d: "CHR '':'' \<notin> set ds" "CHR ''['' \<notin> set ds" "CHR '']'' \<notin> set ds"
    using assms(2) by (auto simp: list_all_iff is_digit_def)
  have i: "LastIndexByte (h @ CHR '':'' # ds) CHR '':'' = Some (length h)"
    using d by (auto simp: LastIndexByte_Some_iff)
  have nb: "take 1 (h @ CHR '':'' # ds) \<noteq> ''[''"
    using h by (cases h) auto
  show ?thesis using i nb h d by (simp add: net_SplitHostPort_def)
qed

lemma char_less_int: "c < d \<longleftrightarrow> (of_char c :: int) < of_char d"
  unfolding less_le_not_le char_le_int by auto

lemma scheme_byte_not:
  assumes "scheme_byte c"
  shows "c \<noteq> CHR '':''" "c \<noteq> CHR ''/''" "c \<noteq> CHR ''?''" "c \<noteq> CHR ''#''" "c \<noteq> CHR ''*''"
    "\<not> is_upper c" "\<not> (c < CHR 0x20 \<or> c = CHR 0x7F)"
  using assms
  by (auto simp: scheme_byte_def is_lower_def is_upper_def is_digit_def char_le_int
        char_less_int)

lemma host_byte_not:
  assumes "host_byte c"
  shows "c \<noteq> CHR '':''" "c \<noteq> CHR ''/''" "c \<noteq> CHR ''?''" "c \<noteq> CHR ''#''" "c \<noteq> CHR ''@''"
    "c \<noteq> CHR ''[''" "\<not> (c < CHR 0x20 \<or> c = CHR 0x7F)" "\<not> shouldEscape_host c"
  using assms
  by (auto simp: host_byte_def shouldEscape_host_def is_lower_def is_upper_def is_digit_def
        char_le_int less_le_not_le)

lemma digit_not:
  assumes "is_digit c"
  shows "c \<noteq> CHR '':''" "c \<noteq> CHR ''/''" "c \<noteq> CHR ''?''" "c \<noteq> CHR ''#''" "c \<noteq> CHR ''@''"
    "\<not> (c < CHR 0x20 \<or> c = CHR 0x7F)"
  using assms
  by (auto simp: is_digit_def char_le_int char_less_int)

lemma getScheme_from_plain:
  "list_all scheme_byte k \<Longrightarrow> seen \<noteq> [] \<or> (k \<noteq> [] \<and> is_lower (hd k)) \<Longrightarrow>
   getScheme_from raw seen (k @ CHR '':'' # rest) = Inr (seen @ k, rest)"
proof (induction k arbitrary: seen)
  case Nil
  then show ?case by (simp add: is_lower_def is_upper_def is_digit_def)
next
  case (Cons c k)
  from Cons.prems have c: "scheme_byte c" and k: "list_all scheme_byte k" by simp_all
  have IH: "getScheme_from raw (seen @ [c]) (k @ CHR '':'' # rest) = Inr ((seen @ [c]) @ k, rest)"
    by (rule Cons.IH [OF k]) simp
  show ?case
  proof (cases "is_lower c")
    case True
    with IH show ?thesis by simp
  next
    case False
    with Cons.prems have "seen \<noteq> []" by simp
    moreover from c False have "is_digit c \<or> c = CHR ''+'' \<or> c = CHR ''-'' \<or> c = CHR ''.''"
      by (simp add: scheme_byte_def)
    moreover from c have "\<not> is_upper c" by (rule scheme_byte_not)
    ultimately show ?thesis using IH False by simp
  qed
qed

lemma Cut_absent:
  assumes "c \<notin> set s"
  shows "Cut s c = (s, [])"
proof -
  from assms have "takeWhile (\<lambda>x. x \<noteq> c) s = s" "dropWhile (\<lambda>x. x \<noteq> c) s = []"
    by (auto simp: takeWhile_eq_all_conv dropWhile_eq_Nil_conv)
  then show ?thesis
    by (simp add: Cut_def del: dropWhile_eq_Nil_conv takeWhile_eq_all_conv)
qed

lemma ToLower_plain: "list_all scheme_byte k \<Longrightarrow> ToLower k = k"
  by (induction k) (auto simp: ToLower_def dest: scheme_byte_not)

lemma parseHost_plain:
  assumes "list_all host_byte h" "list_all is_digit ds"
  shows "parseHost (h @ CHR '':'' # ds) = Inr (h @ CHR '':'' # ds)"
proof -
  have d: "CHR '':'' \<notin> set ds"
    using assms(2) by (auto simp: list_all_iff dest: digit_not)
  have i: "LastIndexByte (h @ CHR '':'' # ds) CHR '':'' = Some (length h)"
    using d by (auto simp: LastIndexByte_Some_iff)
  have nb: "\<not> HasPrefix (h @ CHR '':'' # ds) ''[''"
    using assms(1) by (cases h) (auto simp: HasPrefix_def dest: host_byte_not)
  have "list_all (\<lambda>c. \<not> shouldEscape_host c) (h @ CHR '':'' # ds)"
    using assms by (auto simp: list_all_iff colon_bracket_plain dest: host_byte_not digit_plain)
  then have u: "unescape encodeHost (h @ CHR '':'' # ds) = Inr (h @ CHR '':'' # ds)"
    by (rule unescape_plain)
  show ?thesis
    using i nb u assms(2) by (simp add: parseHost_def validOptionalPort_iff del: unescape.simps)
qed

lemma parseAuthority_plain:
  assumes "list_all host_byte h" "list_all is_digit ds"
  shows "parseAuthority (h @ CHR '':'' # ds) = Inr (h @ CHR '':'' # ds)"
proof -
  have "CHR ''@'' \<notin> set (h @ CHR '':'' # ds)"
    using assms by (auto simp: list_all_iff dest: host_byte_not digit_not)
  then have "LastIndexByte (h @ CHR '':'' # ds) CHR ''@'' = None"
    by (simp add: LastIndexByte_None_iff)
  with parseHost_plain [OF assms] show ?thesis by (simp add: parseAuthority_def)
qed

lemma plain_text_bytes:
  assumes "list_all scheme_byte k" "list_all host_byte h" "list_all is_digit ds"
    and "c \<in> set (k @ CHR '':'' # CHR ''/'' # CHR ''/'' # h @ CHR '':'' # ds)"
  shows "c \<noteq> CHR ''#'' \<and> c \<noteq> CHR ''?'' \<and> \<not> (c < CHR 0x20 \<or> c = CHR 0x7F)"
proof -
  from assms(4) consider "c \<in> set k" | "c \<in> set h" | "c \<in> set ds" | "c = CHR '':''" | "c = CHR ''/''"
    by auto
  then show ?thesis
  proof cases
    case 1
    with assms(1) have "scheme_byte c" by (simp add: list_all_iff)
    then show ?thesis using scheme_byte_not(3,4,7) by blast
  next
    case 2
    with assms(2) have "host_byte c" by (simp add: list_all_iff)
    then show ?thesis using host_byte_not(3,4,7) by blast
  next
    case 3
    with assms(3) have "is_digit c" by (simp add: list_all_iff)
    then show ?thesis using digit_not(3,4,6) by blast
  next
    case 4
    then show ?thesis by simp
  next
    case 5
    then show ?thesis by simp
  qed
qed

lemma parse_plain:
  assumes k: "k \<noteq> []" "is_lower (hd k)" "list_all scheme_byte k"
    and h: "list_all host_byte h" and ds: "list_all is_digit ds"
  shows "parse (k @ CHR '':'' # CHR ''/'' # CHR ''/'' # h @ CHR '':'' # ds)
           = Inr \<lparr>Scheme = k, Host = h @ CHR '':'' # ds\<rparr>"
proof -
  let ?hp = "h @ CHR '':'' # ds"
  let ?e = "k @ CHR '':'' # CHR ''/'' # CHR ''/'' # ?hp"
  note bytes = plain_text_bytes [OF k(3) h ds]
  have ctl: "\<not> stringContainsCTLByte ?e"
    unfolding stringContainsCTLByte_def list_ex_iff using bytes by blast
  have "length ?e \<noteq> length ''*''" by simp
  then have star: "?e \<noteq> ''*''" by (rule contrapos_nn) (erule arg_cong)
  have scheme: "getScheme ?e = Inr (k, CHR ''/'' # CHR ''/'' # ?hp)"
    unfolding getScheme_def using getScheme_from_plain [OF k(3), of "[]" ?e] k(1,2) by simp
  have "CHR ''?'' \<notin> set ?e"
    using bytes [of "CHR ''?''"] by blast
  then have "CHR ''?'' \<notin> set (CHR ''/'' # CHR ''/'' # ?hp)"
    by simp
  then have query: "Cut (CHR ''/'' # CHR ''/'' # ?hp) CHR ''?'' = (CHR ''/'' # CHR ''/'' # ?hp, [])"
    by (rule Cut_absent)
  have slash: "CHR ''/'' \<notin> set ?hp"
    using h ds host_byte_not(2) digit_not(2) unfolding list_all_iff by auto
  then have auth: "takeWhile (\<lambda>x. x \<noteq> CHR ''/'') ?hp = ?hp" "dropWhile (\<lambda>x. x \<noteq> CHR ''/'') ?hp = []"
    by (auto simp: takeWhile_eq_all_conv dropWhile_eq_Nil_conv)
  have pa: "parseAuthority ?hp = Inr ?hp"
    by (rule parseAuthority_plain [OF h ds])
  have tl: "ToLower k = k" by (rule ToLower_plain [OF k(3)])
  have pre: "HasPrefix (CHR ''/'' # CHR ''/'' # ?hp) ''/''" "HasPrefix (CHR ''/'' # CHR ''/'' # ?hp) ''//''"
    by (simp_all add: HasPrefix_def)
  have d2: "drop 2 (CHR ''/'' # CHR ''/'' # ?hp) = ?hp" by simp
  show ?thesis
    unfolding parse_def
    by (simp only: ctl star scheme query auth pa tl pre d2 k(1) Let_def if_False if_True
          sum.case prod.case fst_conv snd_conv not_True_eq_False not_False_eq_True
          simp_thms unescape.simps(1))
qed

lemma url_Parse_plain:
  assumes k: "k \<noteq> []" "is_lower (hd k)" "list_all scheme_byte k"
    and h: "list_all host_byte h" and ds: "list_all is_digit ds"
  shows "url_Parse (k @ ''://'' @ h @ '':'' @ ds) = Inr \<lparr>Scheme = k, Host = h @ '':'' @ ds\<rparr>"
proof -
  let ?e = "k @ CHR '':'' # CHR ''/'' # CHR ''/'' # h @ CHR '':'' # ds"
  have "CHR ''#'' \<notin> set ?e"
    using plain_text_bytes [OF k(3) h ds] by blast
  then have frag: "Cut ?e CHR ''#'' = (?e, [])"
    by (rule Cut_absent)
  have e: "k @ ''://'' @ h @ '':'' @ ds = ?e" by simp
  show ?thesis
    unfolding url_Parse_def e
    by (simp only: frag parse_plain [OF assms] Let_def fst_conv snd_conv sum.case if_True
          simp_thms append.simps)
qed

subsection \<open>Register followed by GetService on the in-memory client\<close>

lemma registration_of_plain:
  assumes "plain_parts ep"
  shows "registration_of op si (endpoint_text ep) (RegisterInstance_call (plain_registration op si ep))"
proof -
  obtain k h n where ep: "ep = (k, h, n)" by (cases ep)
  with assms have k: "k \<noteq> []" "is_lower (hd k)" "list_all scheme_byte k"
    and h: "list_all host_byte h" and n: "0 \<le> n" "n < 2 ^ 63"
    by (simp_all add: plain_parts_def)
  from FormatUint_digits [OF n(1)] have ds: "list_all is_digit (FormatUint n)" by simp
  have "url_Parse (k @ ''://'' @ h @ '':'' @ FormatUint n)
          = Inr \<lparr>Scheme = k, Host = h @ '':'' @ FormatUint n\<rparr>"
    by (rule url_Parse_plain [OF k h ds])
  moreover have "net_SplitHostPort (h @ '':'' @ FormatUint n) = Inr (h, FormatUint n)"
    using SplitHostPort_plain [OF h ds] by simp
  moreover have "strconv_Atoi (FormatUint n) = Inr n"
    by (rule Atoi_FormatUint [OF n])
  ultimately show ?thesis
    unfolding registration_of_iff ep endpoint_text_def plain_registration_def
    by (simp del: append.simps)
qed

lemma same_address_plain:
  assumes "plain_parts ep" "plain_parts ep'"
    and "same_address (plain_registration op si ep) (plain_registration op si ep')"
  shows "ep = ep'"
proof -
  obtain k h n where ep: "ep = (k, h, n)" by (cases ep)
  obtain k' h' n' where ep': "ep' = (k', h', n')" by (cases ep')
  from assms(1,2) ep ep' have n: "0 \<le> n" "n < 2 ^ 63" "0 \<le> n'" "n' < 2 ^ 63"
    by (simp_all add: plain_parts_def)
  let ?p = "plain_registration op si (k, h, n)" and ?q = "plain_registration op si (k', h', n')"
  from assms(3) ep ep'
  have sa: "RegisterInstanceParam.Ip ?p = RegisterInstanceParam.Ip ?q"
    "RegisterInstanceParam.Port ?p = RegisterInstanceParam.Port ?q"
    "RegisterInstanceParam.ServiceName ?p = RegisterInstanceParam.ServiceName ?q"
    unfolding same_address_def by blast+
  from sa(1) have "h = h'"
    by (simp only: plain_registration_def prod.case RegisterInstanceParam.select_convs)
  from sa(3) have "k = k'"
    by (simp only: plain_registration_def prod.case RegisterInstanceParam.select_convs
          same_append_eq)
  from sa(2) have w: "(word_of_int n :: 64 word) = word_of_int n'"
    by (simp only: plain_registration_def prod.case RegisterInstanceParam.select_convs)
  from n have "n < 2 ^ 64" "n' < 2 ^ 64" by simp_all
  with n have un: "uint (word_of_int n :: 64 word) = n" "uint (word_of_int n' :: 64 word) = n'"
    by (simp_all add: uint_word_of_int take_bit_int_eq_self)
  have "n = uint (word_of_int n :: 64 word)" by (rule un(1) [symmetric])
  also have "\<dots> = uint (word_of_int n' :: 64 word)" by (simp only: w)
  also have "\<dots> = n'" by (rule un(2))
  finally have "n = n'" .
  with \<open>h = h'\<close> \<open>k = k'\<close> ep ep' show ?thesis by simp
qed

lemma Register_loop_memory_step:
  assumes "cli r = memory_client" "plain_parts ep"
  shows "Register_loop r si (endpoint_text ep # rest) st =
           Register_loop r si rest
             (filter (\<lambda>q. \<not> same_address (plain_registration (opts r) si ep) q) st
              @ [plain_registration (opts r) si ep])"
proof -
  from registration_of_plain [OF assms(2), of "opts r" si]
  obtain u host port p where
    v: "url_Parse (endpoint_text ep) = Inr u" "net_SplitHostPort (Host u) = Inr (host, port)"
       "strconv_Atoi port = Inr p"
    and prm: "plain_registration (opts r) si ep =
            \<lparr>RegisterInstanceParam.Ip = host,
                 RegisterInstanceParam.Port = word_of_int p,
                 RegisterInstanceParam.Weight = weight (opts r),
                 RegisterInstanceParam.Enable = True,
                 RegisterInstanceParam.Healthy = True,
                 RegisterInstanceParam.Metadata =
                   [''kind'' \<mapsto> Scheme u, ''version'' \<mapsto> Version si]
                     ++ ServiceInstance.Metadata si,
                 RegisterInstanceParam.ClusterName = cluster (opts r),
                 RegisterInstanceParam.ServiceName = Name si @ ''.'' @ Scheme u,
                 RegisterInstanceParam.GroupName = group (opts r),
                 RegisterInstanceParam.Ephemeral = True\<rparr>"
    unfolding registration_of_iff by auto
  show ?thesis
    unfolding prm using v assms(1) by (simp add: memory_client_def Let_def)
qed

lemma Register_loop_memory:
  assumes r: "cli r = memory_client"
  shows "list_all plain_parts eps \<Longrightarrow>
    \<forall>q\<in>set st. \<exists>ep. plain_parts ep \<and> q = plain_registration (opts r) si ep \<Longrightarrow>
    \<exists>st'. Register_loop r si (map endpoint_text eps) st = (None, st')
       \<and> set st' = set st \<union> plain_registration (opts r) si ` set eps"
proof (induction eps arbitrary: st)
  case Nil
  then show ?case by simp
next
  case (Cons ep eps)
  let ?p = "plain_registration (opts r) si ep"
  let ?st = "filter (\<lambda>q. \<not> same_address ?p q) st @ [?p]"
  from Cons.prems have ep: "plain_parts ep" and eps: "list_all plain_parts eps" by simp_all
  have same: "q = ?p" if "q \<in> set st" "same_address ?p q" for q
  proof -
    from that(1) Cons.prems(2) obtain ep' where
      ep': "plain_parts ep'" "q = plain_registration (opts r) si ep'" by blast
    with that(2) same_address_plain [OF ep ep'(1), of "opts r" si] show ?thesis by simp
  qed
  have set_st: "set ?st = set st \<union> {?p}"
    using same by auto
  have inv: "\<forall>q\<in>set ?st. \<exists>ep. plain_parts ep \<and> q = plain_registration (opts r) si ep"
    using Cons.prems(2) ep unfolding set_st by blast
  from Cons.IH [OF eps inv] obtain st' where
    st': "Register_loop r si (map endpoint_text eps) ?st = (None, st')"
      "set st' = set ?st \<union> plain_registration (opts r) si ` set eps"
    by blast
  have "Register_loop r si (map endpoint_text (ep # eps)) st = (None, st')"
    using Register_loop_memory_step [OF r ep, of si "map endpoint_text eps" st] st'(1) by simp
  moreover have "set st' = set st \<union> plain_registration (opts r) si ` set (ep # eps)"
    using st'(2) set_st by auto
  ultimately show ?case by blast
qed

lemma GetService_memory_store:
  assumes "cli r = memory_client"
  shows "GetService r name st =
     (Inr (map (\<lambda>q. reconstruct (opts r) (instance_of q))
            (filter (selected \<lparr>Clusters = [], ServiceName = name, GroupName = group (opts r),
                               HealthyOnly = True\<rparr>) st)), st)"
  using assms
  by (simp add: GetService_def memory_client_def reconstruct_def Let_def comp_def
        cong: option.case_cong)

lemma selected_plain:
  "selected \<lparr>Clusters = [], ServiceName = Name si @ ''.'' @ k, GroupName = group op,
             HealthyOnly = True\<rparr> (plain_registration op si ep) \<longleftrightarrow> fst ep = k"
  by (cases ep) (auto simp: selected_def plain_registration_def)

lemma reconstruct_plain:
  assumes "plain_parts ep"
    and "ServiceInstance.Metadata si ''kind'' = None
         \<or> ServiceInstance.Metadata si ''kind'' = Some (fst ep)"
  shows "Endpoints (reconstruct op' (instance_of (plain_registration op si ep))) = [endpoint_text ep]"
proof -
  obtain k h n where ep: "ep = (k, h, n)" by (cases ep)
  with assms(1) have n: "0 \<le> n" "n < 2 ^ 63" by (simp_all add: plain_parts_def)
  then have "n < 2 ^ 64" by simp
  with n have un: "uint (word_of_int n :: 64 word) = n"
    by (simp add: uint_word_of_int take_bit_int_eq_self)
  from assms(2) ep
  have kind: "([''kind'' \<mapsto> k, ''version'' \<mapsto> Version si] ++ ServiceInstance.Metadata si) ''kind''
                = Some k"
    by (auto simp: map_add_def)
  show ?thesis
    unfolding ep by (simp add: reconstruct_def instance_of_def plain_registration_def
        endpoint_text_def un kind del: map_add_Some_iff)
qed

lemma Register_tagged_memory:
  "Register (New memory_client []) tagged [] = (None, [tagged_param])"
  by (simp add: Register_def tagged_def tagged_param_def registration_def parse_svc
        New_default Let_def memory_client_def fun_eq_iff map_add_def)

lemma GetService_tagged_memory:
  "GetService (New memory_client []) ''svc.grpc'' [tagged_param] = (Inr [tagged_found], [tagged_param])"
  by (simp add: GetService_memory_store New_default selected_def reconstruct_def instance_of_def
        tagged_param_def registration_def tagged_found_def FormatUint_1_2 DEFAULT_GROUP_def)

lemma parse_padded:
  "url_Parse ''grpc://h:01'' = Inr \<lparr>Scheme = ''grpc'', Host = ''h:01''\<rparr>"
  "net_SplitHostPort ''h:01'' = Inr (''h'', ''01'')"
  "strconv_Atoi ''01'' = Inr 1"
  by code_simp+

lemma Register_padded_memory:
  "Register (New memory_client []) padded [] = (None, [registration ''grpc'' ''svc.grpc'' 1])"
  by (simp add: Register_def padded_def registration_def parse_padded
        New_default Let_def memory_client_def)

lemma GetService_bare_name:
  "GetService (New memory_client []) ''svc'' [tagged_param] = (Inr [], [tagged_param])"
  by (simp add: GetService_memory_store New_default selected_def tagged_param_def
        registration_def)

lemma GetService_padded_memory:
  "GetService (New memory_client []) ''svc.grpc'' [registration ''grpc'' ''svc.grpc'' 1]
     = (Inr [padded_found], [registration ''grpc'' ''svc.grpc'' 1])"
  by (simp add: GetService_memory_store New_default selected_def reconstruct_def instance_of_def
        registration_def padded_found_def FormatUint_1_2 DEFAULT_GROUP_def)

lemma plain_endpoints:
  "Endpoints plain = map endpoint_text [(''grpc'', ''h'', 1), (''http'', ''h'', 2), (''grpc'', ''h'', 1)]"
  by (simp add: plain_def endpoint_text_def FormatUint_1_2)

lemma plain_parts_plain:
  "list_all plain_parts [(''grpc'', ''h'', 1), (''http'', ''h'', 2), (''grpc'', ''h'', 1)]"
  by (simp add: plain_parts_def scheme_byte_def host_byte_def is_lower_def is_upper_def
        is_digit_def)

lemma Register_plain_memory:
  "Register (New memory_client []) plain []
     = (None, [registration ''http'' ''svc.http'' 2, registration ''grpc'' ''svc.grpc'' 1])"
  by (simp add: Register_def plain_def registration_def parse_svc
        New_default Let_def memory_client_def same_address_def)

text \<open>
  C4, as stated, does not hold. Against the in-memory client, the instance svc with
  metadata kind: http and the endpoint grpc://h:1 registers, and GetService for svc.grpc
  then returns an instance whose endpoint is http://h:1: the instance's own kind replaced
  the scheme (GetService for the bare name svc returns no instance at all: the record
  lives under svc.grpc). And the instance svc with the endpoint grpc://h:01 registers, and
  GetService returns the endpoint grpc://h:1: the port comes back as a number, not as its
  text.
\<close>

theorem roundtrip_counterexample:
  "Name tagged = ''svc'' \<and> Endpoints tagged = [''grpc://h:1'']
   \<and> Register (New memory_client []) tagged [] = (None, [tagged_param])
   \<and> GetService (New memory_client []) ''svc.grpc'' [tagged_param]
       = (Inr [tagged_found], [tagged_param])
   \<and> Endpoints tagged_found = [''http://h:1'']
   \<and> Endpoints tagged_found \<noteq> Endpoints tagged
   \<and> GetService (New memory_client []) ''svc'' [tagged_param] = (Inr [], [tagged_param])
   \<and> Name padded = ''svc'' \<and> Endpoints padded = [''grpc://h:01'']
   \<and> Register (New memory_client []) padded [] = (None, [registration ''grpc'' ''svc.grpc'' 1])
   \<and> GetService (New memory_client []) ''svc.grpc'' [registration ''grpc'' ''svc.grpc'' 1]
       = (Inr [padded_found], [registration ''grpc'' ''svc.grpc'' 1])
   \<and> Endpoints padded_found = [''grpc://h:1'']
   \<and> Endpoints padded_found \<noteq> Endpoints padded"
  using Register_tagged_memory GetService_tagged_memory Register_padded_memory
    GetService_padded_memory GetService_bare_name
  by (simp add: tagged_def padded_def tagged_found_def padded_found_def)

text \<open>
  C4, amended. For every non-empty service name and every list of endpoints in plain form
  (scheme://host:port with a lower-case scheme, a host of letters, digits and - . _ ~, and
  a decimal port below 2^63 without leading zeros), when the instance's metadata has no
  kind entry other than the scheme of its endpoints, Register on the empty in-memory
  client returns nil, and for every scheme GetService for the name, a dot and the scheme
  returns instances with one endpoint each, and their endpoint strings are exactly the
  supplied endpoints of that scheme.
\<close>

theorem Register_GetService_roundtrip:
  "Name si \<noteq> [] \<and> cli r = memory_client
   \<and> Endpoints si = map endpoint_text eps \<and> list_all plain_parts eps
   \<and> list_all (\<lambda>ep. ServiceInstance.Metadata si ''kind'' = None
                    \<or> ServiceInstance.Metadata si ''kind'' = Some (fst ep)) eps
   \<longrightarrow> (\<exists>st. Register r si [] = (None, st)
          \<and> (\<forall>k. \<exists>items. GetService r (Name si @ ''.'' @ k) st = (Inr items, st)
                \<and> list_all (\<lambda>item. length (Endpoints item) = 1) items
                \<and> set (concat (map Endpoints items))
                    = endpoint_text ` {ep \<in> set eps. fst ep = k}))"
proof (intro impI, elim conjE)
  assume name: "Name si \<noteq> []" and r: "cli r = memory_client"
    and es: "Endpoints si = map endpoint_text eps" and plain: "list_all plain_parts eps"
    and kind: "list_all (\<lambda>ep. ServiceInstance.Metadata si ''kind'' = None
                    \<or> ServiceInstance.Metadata si ''kind'' = Some (fst ep)) eps"
  from Register_loop_memory [OF r plain, of "[]" si] obtain st where
    st: "Register_loop r si (map endpoint_text eps) [] = (None, st)"
      "set st = plain_registration (opts r) si ` set eps"
    by auto
  from st(1) name es have reg: "Register r si [] = (None, st)"
    by (simp add: Register_def)
  have get: "\<exists>items. GetService r (Name si @ ''.'' @ k) st = (Inr items, st)
                \<and> list_all (\<lambda>item. length (Endpoints item) = 1) items
                \<and> set (concat (map Endpoints items))
                    = endpoint_text ` {ep \<in> set eps. fst ep = k}" for k
  proof -
    let ?sel = "selected \<lparr>Clusters = [], ServiceName = Name si @ ''.'' @ k,
                  GroupName = group (opts r), HealthyOnly = True\<rparr>"
    let ?items = "map (\<lambda>q. reconstruct (opts r) (instance_of q)) (filter ?sel st)"
    have g: "GetService r (Name si @ ''.'' @ k) st = (Inr ?items, st)"
      by (rule GetService_memory_store [OF r])
    have one: "Endpoints (reconstruct (opts r) (instance_of q)) = [endpoint_text ep]"
      if "ep \<in> set eps" "q = plain_registration (opts r) si ep" for q ep
      using that plain kind reconstruct_plain [of ep si "opts r" "opts r"]
      by (auto simp: list_all_iff)
    have len: "list_all (\<lambda>item. length (Endpoints item) = 1) ?items"
      using st(2) one by (auto simp: list_all_iff)
    have "set (concat (map Endpoints ?items)) = endpoint_text ` {ep \<in> set eps. fst ep = k}"
    proof (intro set_eqI iffI)
      fix x assume "x \<in> set (concat (map Endpoints ?items))"
      then obtain q where q: "q \<in> set st" "?sel q"
        "x \<in> set (Endpoints (reconstruct (opts r) (instance_of q)))"
        by auto
      with st(2) obtain ep where ep: "ep \<in> set eps" "q = plain_registration (opts r) si ep"
        by auto
      with q(2) have "fst ep = k" by (simp only: selected_plain)
      moreover from one [OF ep] q(3) have "x = endpoint_text ep" by simp
      ultimately show "x \<in> endpoint_text ` {ep \<in> set eps. fst ep = k}"
        using ep(1) by blast
    next
      fix x assume "x \<in> endpoint_text ` {ep \<in> set eps. fst ep = k}"
      then obtain ep where ep: "ep \<in> set eps" "fst ep = k" "x = endpoint_text ep" by blast
      let ?q = "plain_registration (opts r) si ep"
      from ep(1) st(2) have "?q \<in> set st" by blast
      moreover from ep(2) have "?sel ?q" by (simp only: selected_plain)
      moreover from one [OF ep(1) refl] ep(3)
      have "x \<in> set (Endpoints (reconstruct (opts r) (instance_of ?q)))" by simp
      ultimately show "x \<in> set (concat (map Endpoints ?items))"
        by auto
    qed
    with g len show ?thesis by blast
  qed
  from reg get show "\<exists>st. Register r si [] = (None, st)
          \<and> (\<forall>k. \<exists>items. GetService r (Name si @ ''.'' @ k) st = (Inr items, st)
                \<and> list_all (\<lambda>item. length (Endpoints item) = 1) items
                \<and> set (concat (map Endpoints items))
                    = endpoint_text ` {ep \<in> set eps. fst ep = k})"
    by blast
qed

theorem Register_GetService_roundtrip_witness:
  "Name plain \<noteq> [] \<and> cli (New memory_client []) = memory_client
   \<and> Endpoints plain
       = map endpoint_text [(''grpc'', ''h'', 1), (''http'', ''h'', 2), (''grpc'', ''h'', 1)]
   \<and> list_all plain_parts [(''grpc'', ''h'', 1), (''http'', ''h'', 2), (''grpc'', ''h'', 1)]
   \<and> ServiceInstance.Metadata plain ''kind'' = None
   \<and> Register (New memory_client []) plain []
       = (None, [registration ''http'' ''svc.http'' 2, registration ''grpc'' ''svc.grpc'' 1])
   \<and> (\<exists>st. Register (New memory_client []) plain [] = (None, st)
          \<and> (\<forall>k. \<exists>items. GetService (New memory_client []) (Name plain @ ''.'' @ k) st
                              = (Inr items, st)
                \<and> list_all (\<lambda>item. length (Endpoints item) = 1) items
                \<and> set (concat (map Endpoints items))
                    = endpoint_text ` {ep \<in> set [(''grpc'', ''h'', 1), (''http'', ''h'', 2),
                                                   (''grpc'', ''h'', 1)]. fst ep = k}))"
  using Register_GetService_roundtrip [where si = plain and r = "New memory_client []"
      and eps = "[(''grpc'', ''h'', 1), (''http'', ''h'', 2), (''grpc'', ''h'', 1)]"]
    plain_endpoints plain_parts_plain Register_plain_memory
  by (simp add: New_default) (simp add: plain_def)

end
